theory Spec2Isabelle
  imports Complex_Main "HOL-Library.Signed_Division"
begin

section \<open>The layout engine of gi (layout.go)\<close>

text \<open>
  A shallow embedding of the size model, the gather passes, the linear allocator, the
  overflow manager and the split allocator of \<^verbatim>\<open>layout.go\<close>.

  Numbers. A Go \<^verbatim>\<open>float64\<close> is a \<^typ>\<open>real\<close>: every operation is exact, and rounding,
  infinities and NaN are not represented. The one place where the source can leave the
  finite numbers, a division by a zero stretch total, is an explicit result
  (\<open>NonFinite\<close>). A Go \<^verbatim>\<open>int\<close> is an \<^typ>\<open>int\<close> (no wrap-around: child counts and
  grid coordinates are far from 64 bits); the integer quotient is the truncating one
  (\<open>sdiv\<close>).

  State. A method with a pointer receiver takes the receiver and returns the updated
  one. A runtime panic, or a loop that never ends, is the left summand of the result.
\<close>

subsection \<open>Enumerations\<close>

datatype Align =
    AlignLeft | AlignTop | AlignCenter | AlignMiddle | AlignRight | AlignBottom
  | AlignBaseline | AlignJustify | AlignSpaceAround | AlignFlexStart | AlignFlexEnd
  | AlignTextTop | AlignTextBottom | AlignSub | AlignSuper

definition IsAlignStart :: "Align \<Rightarrow> bool" where
  "IsAlignStart a \<longleftrightarrow> a = AlignLeft \<or> a = AlignTop \<or> a = AlignFlexStart \<or> a = AlignTextTop"

definition IsAlignMiddle :: "Align \<Rightarrow> bool" where
  "IsAlignMiddle a \<longleftrightarrow> a = AlignCenter \<or> a = AlignMiddle"

definition IsAlignEnd :: "Align \<Rightarrow> bool" where
  "IsAlignEnd a \<longleftrightarrow> a = AlignRight \<or> a = AlignBottom \<or> a = AlignFlexEnd \<or> a = AlignTextBottom"

datatype Overflow = OverflowAuto | OverflowScroll | OverflowVisible | OverflowHidden

datatype Layouts =
  LayoutRow | LayoutCol | LayoutGrid | LayoutRowFlow | LayoutColFlow | LayoutStacked

text \<open>The two dimensions, \<^verbatim>\<open>X\<close> and \<^verbatim>\<open>Y\<close> in the source (the names are taken by
  the fields of the vector).\<close>

datatype Dims2D = DimX | DimY

text \<open>What stops a call: the runtime panics of Go, a loop without end, a number that is
  not finite; and the one error value that is returned to a caller.\<close>

datatype error =
    IndexOutOfRange | MakeSliceLen | NilPointer | Diverges | NonFinite
  | InvalidArgument

subsection \<open>Vectors\<close>

record Vec2D =
  X :: real
  Y :: real

text \<open>
  Modelled from the spec: the type \<^verbatim>\<open>Vec2D\<close> and its methods are declared in a file of
  the package that is not part of the sources at hand; \<^verbatim>\<open>layout.go\<close> only calls them.
  The spec speaks of componentwise vectors, of max-aggregation (\<open>Need = max(Need,
  AllocSize)\<close>), of sums, and of the clamp \<open>Need \<le> Max\<close>, \<open>Pref \<le> Max\<close>
  whenever \<open>Max \<ge> 0\<close>, a negative \<open>Max\<close> being exempt from it: that clamp is
  \<open>SetMinPos\<close>.
\<close>

definition Vec2DZero :: Vec2D where
  "Vec2DZero = \<lparr>X = 0, Y = 0\<rparr>"

fun Dim :: "Vec2D \<Rightarrow> Dims2D \<Rightarrow> real" where
  "Dim a DimX = X a"
| "Dim a DimY = Y a"

fun SetDim :: "Vec2D \<Rightarrow> Dims2D \<Rightarrow> real \<Rightarrow> Vec2D" where
  "SetDim a DimX v = a\<lparr>X := v\<rparr>"
| "SetDim a DimY v = a\<lparr>Y := v\<rparr>"

definition Add :: "Vec2D \<Rightarrow> Vec2D \<Rightarrow> Vec2D" where
  "Add a b = \<lparr>X = X a + X b, Y = Y a + Y b\<rparr>"

definition Max2D :: "Vec2D \<Rightarrow> Vec2D \<Rightarrow> Vec2D" where
  "Max2D a b = \<lparr>X = max (X a) (X b), Y = max (Y a) (Y b)\<rparr>"

definition SetMax :: "Vec2D \<Rightarrow> Vec2D \<Rightarrow> Vec2D" where
  "SetMax a b = \<lparr>X = max (X a) (X b), Y = max (Y a) (Y b)\<rparr>"

definition MinPos :: "real \<Rightarrow> real \<Rightarrow> real" where
  "MinPos a b = (if 0 \<le> b then min a b else a)"

definition SetMinPos :: "Vec2D \<Rightarrow> Vec2D \<Rightarrow> Vec2D" where
  "SetMinPos a b = \<lparr>X = MinPos (X a) (X b), Y = MinPos (Y a) (Y b)\<rparr>"

definition SetMaxDim :: "Vec2D \<Rightarrow> Dims2D \<Rightarrow> real \<Rightarrow> Vec2D" where
  "SetMaxDim a d v = SetDim a d (max (Dim a d) v)"

definition SetAddDim :: "Vec2D \<Rightarrow> Dims2D \<Rightarrow> real \<Rightarrow> Vec2D" where
  "SetAddDim a d v = SetDim a d (Dim a d + v)"

definition SetAddVal :: "Vec2D \<Rightarrow> real \<Rightarrow> Vec2D" where
  "SetAddVal a v = \<lparr>X = X a + v, Y = Y a + v\<rparr>"

definition SubVal :: "Vec2D \<Rightarrow> real \<Rightarrow> Vec2D" where
  "SubVal a v = \<lparr>X = X a - v, Y = Y a - v\<rparr>"

definition SetVal :: "Vec2D \<Rightarrow> real \<Rightarrow> Vec2D" where
  "SetVal a v = \<lparr>X = v, Y = v\<rparr>"

subsection \<open>Size preferences and layout data\<close>

record SizePrefs =
  Need :: Vec2D
  Pref :: Vec2D
  Max' :: Vec2D

definition HasMaxStretch :: "SizePrefs \<Rightarrow> Dims2D \<Rightarrow> bool" where
  "HasMaxStretch sp d \<longleftrightarrow> Dim (Max' sp) d < 0"

definition CanStretchNeed :: "SizePrefs \<Rightarrow> Dims2D \<Rightarrow> bool" where
  "CanStretchNeed sp d \<longleftrightarrow> Dim (Pref sp) d > Dim (Need sp) d"

text \<open>The fields of \<^verbatim>\<open>LayoutData\<close> that the functions below read or write
  (\<^verbatim>\<open>Margins\<close>, \<^verbatim>\<open>GridPos\<close> and \<^verbatim>\<open>GridSpan\<close> are touched by none of them).\<close>

record LayoutData =
  Size :: SizePrefs
  AllocSize :: Vec2D
  AllocPos :: Vec2D
  AllocPosRel :: Vec2D
  AllocPosOrig :: Vec2D

text \<open>The zero value, as \<^verbatim>\<open>make([]LayoutData, n)\<close> fills a slice with.\<close>

definition LayoutData0 :: LayoutData where
  "LayoutData0 =
     \<lparr>Size = \<lparr>Need = Vec2DZero, Pref = Vec2DZero, Max' = Vec2DZero\<rparr>,
      AllocSize = Vec2DZero, AllocPos = Vec2DZero, AllocPosRel = Vec2DZero,
      AllocPosOrig = Vec2DZero\<rparr>"

definition Reset :: "LayoutData \<Rightarrow> LayoutData" where
  "Reset ld = ld\<lparr>AllocSize := Vec2DZero, AllocPos := Vec2DZero,
                 AllocPosRel := Vec2DZero, AllocPosOrig := Vec2DZero\<rparr>"

definition UpdateSizes :: "LayoutData \<Rightarrow> LayoutData" where
  "UpdateSizes ld =
     (let need1 = SetMax (Need (Size ld)) (AllocSize ld);
          pref1 = SetMax (Pref (Size ld)) need1;
          need2 = SetMinPos need1 (Max' (Size ld));
          pref2 = SetMinPos pref1 (Max' (Size ld))
      in ld\<lparr>Size := (Size ld)\<lparr>Need := need2, Pref := pref2\<rparr>\<rparr>)"

subsection \<open>Styles and nodes\<close>

text \<open>The fields of \<^verbatim>\<open>LayoutStyle\<close> that the layout reads, already in dots.\<close>

record LayoutStyle =
  AlignH :: Align
  AlignV :: Align
  Overflow :: Overflow
  Columns :: int
  Row :: int
  Col :: int
  RowSpan :: int
  ColSpan :: int
  ScrollBarWidth :: real

fun AlignDim :: "LayoutStyle \<Rightarrow> Dims2D \<Rightarrow> Align" where
  "AlignDim ls DimX = AlignH ls"
| "AlignDim ls DimY = AlignV ls"

text \<open>Of the style of a node the layout reads the layout style, the box spacing (the
  value of \<^verbatim>\<open>Style.BoxSpace()\<close>, declared elsewhere in the package, taken here as
  given) and the font size in dots.\<close>

record Style =
  Layout :: LayoutStyle
  BoxSpace :: real
  FontSize :: real

text \<open>A child as a container sees it through \<^verbatim>\<open>KiToNode2D\<close>: its style and its layout
  data. A child for which \<^verbatim>\<open>KiToNode2D\<close> gives \<^verbatim>\<open>nil\<close> is \<open>None\<close> in the child
  list; it still counts in \<^verbatim>\<open>len(ly.Kids)\<close>.\<close>

record Node2DBase =
  Style :: Style
  LayData :: LayoutData

record WidgetBase = Node2DBase +
  Kids :: "Node2DBase option list"

text \<open>The fields of a scrollbar that the layout assigns.\<close>

record ScrollBar =
  Horiz :: bool
  sbMin :: real
  sbMax :: real
  Step :: real
  PageStep :: real
  ThumbVal :: real
  Tracking :: bool
  TrackThr :: real
  sbLayData :: LayoutData

definition ScrollBar0 :: ScrollBar where
  "ScrollBar0 =
     \<lparr>Horiz = False, sbMin = 0, sbMax = 0, Step = 0, PageStep = 0, ThumbVal = 0,
      Tracking = False, TrackThr = 0, sbLayData = LayoutData0\<rparr>"

text \<open>A layout container. \<^verbatim>\<open>StackTop\<close> points to one of the children: the pointer is
  the index of that child. \<^verbatim>\<open>GridData[Row]\<close> and \<^verbatim>\<open>GridData[Col]\<close> are the two
  track sequences.\<close>

record Layout = WidgetBase +
  Lay :: Layouts
  StackTop :: "nat option"
  ChildSize :: Vec2D
  ExtraSize :: Vec2D
  HasHScroll :: bool
  HasVScroll :: bool
  HScroll :: "ScrollBar option"
  VScroll :: "ScrollBar option"
  GridSize :: "int \<times> int"
  GridDataRow :: "LayoutData list"
  GridDataCol :: "LayoutData list"

definition SumDim :: "Layout \<Rightarrow> Dims2D \<Rightarrow> bool" where
  "SumDim ly d \<longleftrightarrow> (d = DimX \<and> Lay ly = LayoutRow) \<or> (d = DimY \<and> Lay ly = LayoutCol)"

subsection \<open>Gathering sizes: rows, columns and stacks\<close>

record GatherAcc =
  sumPref :: Vec2D
  sumNeed :: Vec2D
  maxPref :: Vec2D
  maxNeed :: Vec2D

text \<open>The loop over the children of \<^verbatim>\<open>GatherSizes\<close>: each child is re-clamped and its
  sizes are added to the running sums and maxima.\<close>

fun gatherKids ::
  "Node2DBase option list \<Rightarrow> GatherAcc \<Rightarrow> Node2DBase option list \<times> GatherAcc" where
  "gatherKids [] acc = ([], acc)"
| "gatherKids (None # cs) acc =
     (case gatherKids cs acc of (cs', acc') \<Rightarrow> (None # cs', acc'))"
| "gatherKids (Some gi # cs) acc =
     (let ld = UpdateSizes (LayData gi);
          acc1 = \<lparr>sumPref = Add (sumPref acc) (Pref (Size ld)),
                  sumNeed = Add (sumNeed acc) (Need (Size ld)),
                  maxPref = Max2D (maxPref acc) (Pref (Size ld)),
                  maxNeed = Max2D (maxNeed acc) (Need (Size ld))\<rparr>
      in case gatherKids cs acc1 of (cs', acc') \<Rightarrow> (Some (gi\<lparr>LayData := ld\<rparr>) # cs', acc'))"

text \<open>The loop over the two dimensions: sum along the flow, maximum across it, each
  joined with the container's own value by a maximum.\<close>

definition gatherDim :: "Layout \<Rightarrow> GatherAcc \<Rightarrow> Dims2D \<Rightarrow> SizePrefs \<Rightarrow> SizePrefs" where
  "gatherDim ly acc d sp =
     (if SumDim ly d
      then sp\<lparr>Need := SetMaxDim (Need sp) d (Dim (sumNeed acc) d),
              Pref := SetMaxDim (Pref sp) d (Dim (sumPref acc) d)\<rparr>
      else sp\<lparr>Need := SetMaxDim (Need sp) d (Dim (maxNeed acc) d),
              Pref := SetMaxDim (Pref sp) d (Dim (maxPref acc) d)\<rparr>)"

definition addSpacing :: "real \<Rightarrow> SizePrefs \<Rightarrow> SizePrefs" where
  "addSpacing spc sp =
     sp\<lparr>Need := SetAddVal (Need sp) (2 * spc), Pref := SetAddVal (Pref sp) (2 * spc)\<rparr>"

definition GatherSizes :: "Layout \<Rightarrow> Layout" where
  "GatherSizes ly =
     (if length (Kids ly) = 0 then ly
      else
        case gatherKids (Kids ly)
               \<lparr>sumPref = Vec2DZero, sumNeed = Vec2DZero,
                maxPref = Vec2DZero, maxNeed = Vec2DZero\<rparr> of
          (kids, acc) \<Rightarrow>
            (let sp1 = gatherDim ly acc DimY (gatherDim ly acc DimX (Size (LayData ly)));
                 sp2 = addSpacing (BoxSpace (Style ly)) sp1
             in ly\<lparr>Kids := kids,
                    LayData := UpdateSizes ((LayData ly)\<lparr>Size := sp2\<rparr>)\<rparr>))"

subsection \<open>The split view\<close>

record SplitView = WidgetBase +
  Splits :: "real list"
  SavedSplits :: "real list option"
  SplitDim :: Dims2D

text \<open>\<^verbatim>\<open>UpdateSplits\<close>: a slice of the wrong length is replaced by a fresh one of zeros;
  a zero sum gives even shares; then every share is scaled by the inverse of the sum.
  The shares are exact reals here. In the source they are \<^verbatim>\<open>float64\<close>: the sum, its
  inverse and the products round, so that shares it has normalised need not sum to
  exactly \<^verbatim>\<open>1.0\<close> and a second normalisation may change their last digit. What is
  proved of sums equal to 1 is proved of the exact arithmetic.\<close>

definition UpdateSplits :: "SplitView \<Rightarrow> SplitView" where
  "UpdateSplits g =
     (let sz = length (Kids g) in
      if sz = 0 then g
      else
        let splits0 = (if length (Splits g) \<noteq> sz then replicate sz 0 else Splits g);
            sum0 = sum_list splits0;
            splits1 = (if sum0 = 0 then map (\<lambda>_. 1 / real sz) splits0 else splits0);
            sum1 = (if sum0 = 0 then 1 else sum0);
            norm = 1 / sum1
        in g\<lparr>Splits := map (\<lambda>sp. sp * norm) splits1\<rparr>)"

text \<open>\<^verbatim>\<open>SetSplits\<close> overwrites the first \<open>min(len(Kids), len(splits))\<close> shares; the
  write \<^verbatim>\<open>g.Splits[i]\<close> panics when \<^verbatim>\<open>g.Splits\<close> is shorter than that.
  (\<^verbatim>\<open>UpdateStart\<close> and \<^verbatim>\<open>UpdateEnd\<close> signal the update to the tree and leave the
  fields modelled here alone.)\<close>

definition SetSplits :: "real list \<Rightarrow> SplitView \<Rightarrow> error + SplitView" where
  "SetSplits splits g =
     (let sz = length (Kids g);
          mx = min sz (length splits)
      in if length (Splits g) < mx then Inl IndexOutOfRange
         else Inr (UpdateSplits (g\<lparr>Splits := take mx splits @ drop mx (Splits g)\<rparr>)))"

definition SaveSplits :: "SplitView \<Rightarrow> SplitView" where
  "SaveSplits g =
     (if length (Splits g) = 0 then g else g\<lparr>SavedSplits := Some (Splits g)\<rparr>)"

definition RestoreSplits :: "SplitView \<Rightarrow> error + SplitView" where
  "RestoreSplits g =
     (case SavedSplits g of None \<Rightarrow> Inr g | Some saved \<Rightarrow> SetSplits saved g)"

text \<open>The loop over the indices of \<^verbatim>\<open>CollapseChild\<close>: an index outside
  \<open>[0, sz)\<close> is skipped; the write panics when the slice is shorter than the index.\<close>

fun collapseIdxs :: "nat \<Rightarrow> int list \<Rightarrow> real list \<Rightarrow> error + real list" where
  "collapseIdxs sz [] sp = Inr sp"
| "collapseIdxs sz (idx # idxs) sp =
     (if 0 \<le> idx \<and> idx < int sz
      then (if nat idx < length sp then collapseIdxs sz idxs (sp[nat idx := 0])
            else Inl IndexOutOfRange)
      else collapseIdxs sz idxs sp)"

definition CollapseChild :: "bool \<Rightarrow> int list \<Rightarrow> SplitView \<Rightarrow> error + SplitView" where
  "CollapseChild save idxs g =
     (let g1 = (if save then SaveSplits g else g) in
      case collapseIdxs (length (Kids g1)) idxs (Splits g1) of
        Inl e \<Rightarrow> Inl e
      | Inr sp \<Rightarrow> Inr (UpdateSplits (g1\<lparr>Splits := sp\<rparr>)))"

subsection \<open>Example values\<close>

text \<open>The zero style, a child with zero layout data, and a split view of \<open>n\<close> such
  children with given shares.\<close>

definition LayoutStyle0 :: LayoutStyle where
  "LayoutStyle0 =
     \<lparr>AlignH = AlignLeft, AlignV = AlignLeft, Overflow = OverflowAuto, Columns = 0,
      Row = 0, Col = 0, RowSpan = 0, ColSpan = 0, ScrollBarWidth = 0\<rparr>"

definition Style0 :: Style where
  "Style0 = \<lparr>Layout = LayoutStyle0, BoxSpace = 0, FontSize = 0\<rparr>"

definition Node0 :: Node2DBase where
  "Node0 = \<lparr>Style = Style0, LayData = LayoutData0\<rparr>"

definition splitView :: "nat \<Rightarrow> real list \<Rightarrow> SplitView" where
  "splitView n sp =
     \<lparr>Style = Style0, LayData = LayoutData0, Kids = replicate n (Some Node0),
      Splits = sp, SavedSplits = None, SplitDim = DimX\<rparr>"

text \<open>The coercion of the shares to \<open>n\<close> entries as the spec words it: the existing
  shares are kept, new entries are zero. (The source does otherwise, see
  \<open>UpdateSplits\<close>.)\<close>

definition coerceKeeping :: "nat \<Rightarrow> real list \<Rightarrow> real list" where
  "coerceKeeping n xs = take n xs @ replicate (n - length xs) 0"

subsection \<open>Showing a child of a stacked layout\<close>

text \<open>
  Modelled from the spec: \<^verbatim>\<open>Kids.ValidIndex\<close> belongs to the tree package, which is
  not part of the sources at hand. The spec says that an out-of-range index request is
  reported as an invalid-argument condition; an index in range is returned as it is.
\<close>

definition ValidIndex :: "'a list \<Rightarrow> int \<Rightarrow> error + int" where
  "ValidIndex ks idx =
     (if 0 \<le> idx \<and> idx < int (length ks) then Inr idx else Inl InvalidArgument)"

text \<open>\<^verbatim>\<open>ShowChildAtIndex\<close> returns the error, if any, and leaves the layout as it is
  then; the result is the returned error and the receiver after the call.\<close>

definition ShowChildAtIndex :: "int \<Rightarrow> Layout \<Rightarrow> error option \<times> Layout" where
  "ShowChildAtIndex idx ly =
     (case ValidIndex (Kids ly) idx of
        Inl err \<Rightarrow> (Some err, ly)
      | Inr idx' \<Rightarrow> (None, ly\<lparr>StackTop := Some (nat idx')\<rparr>))"

text \<open>A row layout with given children, everything else zero.\<close>

definition layout0 :: "Node2DBase option list \<Rightarrow> Layout" where
  "layout0 kids =
     \<lparr>Style = Style0, LayData = LayoutData0, Kids = kids, Lay = LayoutRow, StackTop = None,
      ChildSize = Vec2DZero, ExtraSize = Vec2DZero, HasHScroll = False, HasVScroll = False,
      HScroll = None, VScroll = None, GridSize = (0, 0), GridDataRow = [], GridDataCol = []\<rparr>"

subsection \<open>Gathering sizes: the grid\<close>

text \<open>The first loop of \<^verbatim>\<open>GatherSizesGrid\<close>: the extent that the children ask for.
  A child counts only with a column (a row) above 0.\<close>

fun gridExtent :: "Node2DBase option list \<Rightarrow> int \<times> int \<Rightarrow> int \<times> int" where
  "gridExtent [] cr = cr"
| "gridExtent (None # cs) cr = gridExtent cs cr"
| "gridExtent (Some gi # cs) (cols, rows) =
     (let lst = Layout (Style gi);
          cols1 = (if Col lst > 0 then max cols (Col lst + ColSpan lst) else cols);
          rows1 = (if Row lst > 0 then max rows (Row lst + RowSpan lst) else rows)
      in gridExtent cs (cols1, rows1))"

text \<open>\<^verbatim>\<open>for rows*cols < sz { rows++ }\<close>: the loop has no end when \<open>cols\<close> is not
  positive and \<open>rows * cols\<close> starts below \<open>sz\<close>.\<close>

partial_function (option) growRows :: "int \<Rightarrow> int \<Rightarrow> int \<Rightarrow> int option" where
  "growRows rows cols sz =
     (if rows * cols < sz then growRows (rows + 1) cols sz else Some rows)"

text \<open>The size of the grid. \<^verbatim>\<open>int(math.Sqrt(float64(sz)))\<close> truncates, and the square
  root is not negative: it is the floor. With children, \<open>cols\<close> is not 0 at the
  division.\<close>

definition gridDims :: "Layout \<Rightarrow> error + int \<times> int" where
  "gridDims ly =
     (let sz = int (length (Kids ly)) in
      case gridExtent (Kids ly) (Columns (Layout (Style ly)), 0) of
        (cols0, rows0) \<Rightarrow>
          (let cols = (if cols0 = 0 then \<lfloor>sqrt (real_of_int sz)\<rfloor> else cols0);
               rows1 = (if rows0 = 0 then sz sdiv cols else rows0)
           in case growRows rows1 cols sz of
                None \<Rightarrow> Inl Diverges
              | Some rows \<Rightarrow> Inr (cols, rows)))"

text \<open>A track sequence is made anew only when its length has to change;
  \<^verbatim>\<open>make\<close> panics on a negative length.\<close>

definition makeTracks :: "LayoutData list \<Rightarrow> int \<Rightarrow> error + LayoutData list" where
  "makeTracks gd n =
     (if int (length gd) \<noteq> n
      then (if n < 0 then Inl MakeSliceLen else Inr (replicate (nat n) LayoutData0))
      else Inr gd)"

text \<open>Before the cells are visited, \<open>Need\<close> and \<open>Pref\<close> of every track are set to
  zero; \<open>Max\<close> is not.\<close>

definition resetTrack :: "LayoutData \<Rightarrow> LayoutData" where
  "resetTrack tr = tr\<lparr>Size := (Size tr)\<lparr>Need := \<lparr>X = 0, Y = 0\<rparr>, Pref := \<lparr>X = 0, Y = 0\<rparr>\<rparr>\<rparr>"

text \<open>What a cell with layout data \<open>ld\<close> does to its row track: \<open>Need.Y\<close> and
  \<open>Pref.Y\<close> by maximum, and \<open>Max.Y\<close> by the rule that a stretch dominates.\<close>

definition rowTrackUpdate :: "LayoutData \<Rightarrow> LayoutData \<Rightarrow> LayoutData" where
  "rowTrackUpdate tr ld =
     (let sp = Size tr;
          sp1 = sp\<lparr>Need := SetMaxDim (Need sp) DimY (Y (Need (Size ld))),
                   Pref := SetMaxDim (Pref sp) DimY (Y (Pref (Size ld)))\<rparr>;
          sp2 = (if Y (Max' sp1) \<ge> 0
                 then (if Y (Max' (Size ld)) < 0
                       then sp1\<lparr>Max' := (Max' sp1)\<lparr>Y := - 1\<rparr>\<rparr>
                       else sp1\<lparr>Max' := SetMaxDim (Max' sp1) DimY (Y (Max' (Size ld)))\<rparr>)
                 else sp1)
      in tr\<lparr>Size := sp2\<rparr>)"

text \<open>What it does to its column track: \<open>Need.X\<close> and \<open>Pref.X\<close> by maximum; for
  \<open>Max.X\<close> the source tests \<^verbatim>\<open>gi.LayData.Size.Max.Y < 0\<close> (line 463), the
  \<open>Y\<close> component of the cell.\<close>

definition colTrackUpdate :: "LayoutData \<Rightarrow> LayoutData \<Rightarrow> LayoutData" where
  "colTrackUpdate tr ld =
     (let sp = Size tr;
          sp1 = sp\<lparr>Need := SetMaxDim (Need sp) DimX (X (Need (Size ld))),
                   Pref := SetMaxDim (Pref sp) DimX (X (Pref (Size ld)))\<rparr>;
          sp2 = (if X (Max' sp1) \<ge> 0
                 then (if Y (Max' (Size ld)) < 0
                       then sp1\<lparr>Max' := (Max' sp1)\<lparr>X := - 1\<rparr>\<rparr>
                       else sp1\<lparr>Max' := SetMaxDim (Max' sp1) DimX (X (Max' (Size ld)))\<rparr>)
                 else sp1)
      in tr\<lparr>Size := sp2\<rparr>)"

text \<open>The loop over the cells, in raster order from \<open>(col, row)\<close>; a child with a
  column (a row) above 0 moves the cursor there. Indexing a track sequence out of range
  panics.\<close>

fun gatherGridKids ::
  "int \<Rightarrow> int \<Rightarrow> Node2DBase option list \<Rightarrow> int \<Rightarrow> int \<Rightarrow> LayoutData list \<Rightarrow> LayoutData list
     \<Rightarrow> error + Node2DBase option list \<times> LayoutData list \<times> LayoutData list" where
  "gatherGridKids cols rows [] col row gr gc = Inr ([], gr, gc)"
| "gatherGridKids cols rows (None # cs) col row gr gc =
     (case gatherGridKids cols rows cs col row gr gc of
        Inl e \<Rightarrow> Inl e
      | Inr (cs', gr', gc') \<Rightarrow> Inr (None # cs', gr', gc'))"
| "gatherGridKids cols rows (Some gi # cs) col row gr gc =
     (let ld = UpdateSizes (LayData gi);
          lst = Layout (Style gi);
          col1 = (if Col lst > 0 then Col lst else col);
          row1 = (if Row lst > 0 then Row lst else row)
      in if row1 < 0 \<or> int (length gr) \<le> row1 \<or> col1 < 0 \<or> int (length gc) \<le> col1
         then Inl IndexOutOfRange
         else
           let gr1 = gr[nat row1 := rowTrackUpdate (gr ! nat row1) ld];
               gc1 = gc[nat col1 := colTrackUpdate (gc ! nat col1) ld];
               col2 = col1 + 1;
               col3 = (if col2 \<ge> cols then 0 else col2);
               row2 = (if col2 \<ge> cols then row1 + 1 else row1);
               row3 = (if col2 \<ge> cols \<and> row2 \<ge> rows then 0 else row2)
           in case gatherGridKids cols rows cs col3 row3 gr1 gc1 of
                Inl e \<Rightarrow> Inl e
              | Inr (cs', gr', gc') \<Rightarrow> Inr (Some (gi\<lparr>LayData := ld\<rparr>) # cs', gr', gc'))"

definition GatherSizesGrid :: "Layout \<Rightarrow> error + Layout" where
  "GatherSizesGrid ly =
     (if length (Kids ly) = 0 then Inr ly
      else
        case gridDims ly of
          Inl e \<Rightarrow> Inl e
        | Inr (cols, rows) \<Rightarrow>
           (case makeTracks (GridDataRow ly) rows of
              Inl e \<Rightarrow> Inl e
            | Inr gr0 \<Rightarrow>
               (case makeTracks (GridDataCol ly) cols of
                  Inl e \<Rightarrow> Inl e
                | Inr gc0 \<Rightarrow>
                   (case gatherGridKids cols rows (Kids ly) 0 0
                           (map resetTrack gr0) (map resetTrack gc0) of
                      Inl e \<Rightarrow> Inl e
                    | Inr (kids, gr, gc) \<Rightarrow>
                        (let sumNeed = \<lparr>X = sum_list (map (\<lambda>tr. X (Need (Size tr))) gc),
                                         Y = sum_list (map (\<lambda>tr. Y (Need (Size tr))) gr)\<rparr>;
                             sumPref = \<lparr>X = sum_list (map (\<lambda>tr. X (Pref (Size tr))) gc),
                                         Y = sum_list (map (\<lambda>tr. Y (Pref (Size tr))) gr)\<rparr>;
                             sp = Size (LayData ly);
                             sp1 = sp\<lparr>Need := SetMax (Need sp) sumNeed,
                                      Pref := SetMax (Pref sp) sumPref\<rparr>;
                             sp2 = addSpacing (BoxSpace (Style ly)) sp1
                         in Inr (ly\<lparr>Kids := kids, GridSize := (cols, rows),
                                     GridDataRow := gr, GridDataCol := gc,
                                     LayData := UpdateSizes ((LayData ly)\<lparr>Size := sp2\<rparr>)\<rparr>))))))"

subsection \<open>Allocation along the flow: \<^verbatim>\<open>LayoutAll\<close>\<close>

text \<open>The counting loops: the number of stretch candidates and the sum of their
  preferred sizes, for the candidate test \<open>cand\<close> of the branch.\<close>

fun stretchTotal ::
  "(SizePrefs \<Rightarrow> bool) \<Rightarrow> Dims2D \<Rightarrow> Node2DBase option list \<Rightarrow> nat \<times> real \<Rightarrow> nat \<times> real" where
  "stretchTotal cand d [] acc = acc"
| "stretchTotal cand d (None # cs) acc = stretchTotal cand d cs acc"
| "stretchTotal cand d (Some gi # cs) (nstretch, stretchTot) =
     stretchTotal cand d cs
       (if cand (Size (LayData gi))
        then (nstretch + 1, stretchTot + Dim (Pref (Size (LayData gi))) d)
        else (nstretch, stretchTot))"

text \<open>The local variables of \<^verbatim>\<open>LayoutAll\<close> that the arranging loop reads.\<close>

record AllocVars =
  usePref :: bool
  extra :: real
  stretchTot :: real
  stretchNeed :: bool
  stretchMax :: bool
  addSpace :: bool
  extraSpace :: real

text \<open>The size given to a child with size preferences \<open>sp\<close>.\<close>

definition allocSize :: "Dims2D \<Rightarrow> AllocVars \<Rightarrow> SizePrefs \<Rightarrow> real" where
  "allocSize d v sp =
     (let size0 = (if usePref v then Dim (Pref sp) d else Dim (Need sp) d) in
      if stretchMax v
      then (if HasMaxStretch sp d
            then size0 + extra v * (Dim (Pref sp) d / stretchTot v) else size0)
      else if stretchNeed v
      then (if HasMaxStretch sp d \<or> CanStretchNeed sp d
            then size0 + extra v * (Dim (Pref sp) d / stretchTot v) else size0)
      else size0)"

text \<open>The arranging loop: \<open>i\<close> is the index of the child, \<open>pos\<close> the running
  position.\<close>

fun arrangeKids ::
  "Dims2D \<Rightarrow> AllocVars \<Rightarrow> nat \<Rightarrow> real \<Rightarrow> Node2DBase option list \<Rightarrow> Node2DBase option list" where
  "arrangeKids d v i pos [] = []"
| "arrangeKids d v i pos (None # cs) = None # arrangeKids d v (i + 1) pos cs"
| "arrangeKids d v i pos (Some gi # cs) =
     (let size1 = allocSize d v (Size (LayData gi));
          pos1 = (if \<not> stretchMax v \<and> \<not> stretchNeed v \<and> addSpace v \<and> i > 0
                  then pos + extraSpace v else pos);
          ld = (LayData gi)\<lparr>AllocSize := SetDim (AllocSize (LayData gi)) d size1,
                             AllocPosRel := SetDim (AllocPosRel (LayData gi)) d pos1\<rparr>
      in Some (gi\<lparr>LayData := ld\<rparr>) # arrangeKids d v (i + 1) (pos1 + size1) cs)"

text \<open>\<^verbatim>\<open>LayoutAll\<close>. When some child stretches and the sum of the candidates'
  preferred sizes is 0, the source divides by zero and the sizes are infinite or NaN:
  the result \<open>NonFinite\<close>.\<close>

definition LayoutAll :: "Dims2D \<Rightarrow> Layout \<Rightarrow> error + Layout" where
  "LayoutAll d ly =
     (let sz = length (Kids ly) in
      if sz = 0 then Inr ly
      else
        let al = AlignDim (Layout (Style ly)) d;
            spc = BoxSpace (Style ly);
            avail = Dim (AllocSize (LayData ly)) d - 2 * spc;
            pref = Dim (Pref (Size (LayData ly))) d - 2 * spc;
            need = Dim (Need (Size (LayData ly))) d - 2 * spc;
            useP = \<not> (avail - pref < - (1 / 10));
            targ = (if useP then pref else need);
            ext = max (avail - targ) 0;
            cnt = (if useP \<and> ext > 0
                   then stretchTotal (\<lambda>sp. HasMaxStretch sp d) d (Kids ly) (0, 0)
                   else if ext > 0
                   then stretchTotal (\<lambda>sp. HasMaxStretch sp d \<or> CanStretchNeed sp d)
                          d (Kids ly) (0, 0)
                   else (0, 0));
            strMax = (useP \<and> ext > 0 \<and> fst cnt > 0);
            strNeed = (\<not> useP \<and> ext > 0 \<and> fst cnt > 0);
            addSp = (sz > 1 \<and> ext > 0 \<and> al = AlignJustify \<and> \<not> strNeed \<and> \<not> strMax);
            v = \<lparr>usePref = useP, extra = ext, stretchTot = snd cnt, stretchNeed = strNeed,
                 stretchMax = strMax, addSpace = addSp,
                 extraSpace = (if addSp then ext / real (sz - 1) else 0)\<rparr>;
            pos = (if IsAlignEnd al \<and> \<not> strNeed \<and> \<not> strMax then spc + ext else spc)
        in if (strMax \<or> strNeed) \<and> snd cnt = 0 then Inl NonFinite
           else Inr (ly\<lparr>Kids := arrangeKids d v 0 pos (Kids ly)\<rparr>))"

subsection \<open>Overflow and scrollbars\<close>

text \<open>\<^verbatim>\<open>SetHScroll\<close> and \<^verbatim>\<open>SetVScroll\<close> make the scrollbar on first use and set
  its range and steps. (The calls that initialise and style the scrollbar object, and
  the connection of its signal, belong to other files and act on the scrollbar
  only.)\<close>

definition SetHScroll :: "Layout \<Rightarrow> Layout" where
  "SetHScroll ly =
     (let sc0 = (case HScroll ly of None \<Rightarrow> ScrollBar0\<lparr>Horiz := True\<rparr> | Some sc \<Rightarrow> sc);
          spc = BoxSpace (Style ly);
          step = FontSize (Style ly)
      in ly\<lparr>HScroll := Some (sc0\<lparr>sbMin := 0,
                                   sbMax := X (ChildSize ly) + X (ExtraSize ly),
                                   Step := step, PageStep := 10 * step,
                                   ThumbVal := X (AllocSize (LayData ly)) - spc,
                                   Tracking := True, TrackThr := step\<rparr>)\<rparr>)"

definition SetVScroll :: "Layout \<Rightarrow> Layout" where
  "SetVScroll ly =
     (let sc0 = (case VScroll ly of None \<Rightarrow> ScrollBar0 | Some sc \<Rightarrow> sc);
          spc = BoxSpace (Style ly);
          step = FontSize (Style ly)
      in ly\<lparr>VScroll := Some (sc0\<lparr>sbMin := 0,
                                   sbMax := Y (ChildSize ly) + Y (ExtraSize ly),
                                   Step := step, PageStep := 10 * step,
                                   ThumbVal := Y (AllocSize (LayData ly)) - spc,
                                   Tracking := True, TrackThr := step\<rparr>)\<rparr>)"

definition DeactivateScroll :: "ScrollBar \<Rightarrow> ScrollBar" where
  "DeactivateScroll sc =
     sc\<lparr>sbLayData := (sbLayData sc)\<lparr>AllocPos := Vec2DZero, AllocSize := Vec2DZero\<rparr>\<rparr>"

text \<open>\<^verbatim>\<open>LayoutScrolls\<close>, first the horizontal bar, then the vertical one. A flag that
  is set without its scrollbar is a nil dereference.\<close>

definition layoutHScroll :: "Layout \<Rightarrow> error + Layout" where
  "layoutHScroll ly =
     (let sbw = ScrollBarWidth (Layout (Style ly));
          lyd = LayData ly
      in if HasHScroll ly
         then (case HScroll ly of
                 None \<Rightarrow> Inl NilPointer
               | Some sc \<Rightarrow>
                   Inr (ly\<lparr>HScroll := Some (sc\<lparr>sbLayData := (sbLayData sc)
                     \<lparr>AllocPosRel := \<lparr>X = X (AllocPosRel lyd),
                                      Y = Y (AllocPosRel lyd) + Y (AllocSize lyd) - sbw - 2\<rparr>,
                      AllocPosOrig := AllocPos (sbLayData sc),
                      AllocSize := \<lparr>X = (if HasVScroll ly then X (AllocSize lyd) - sbw
                                          else X (AllocSize lyd)),
                                    Y = sbw\<rparr>\<rparr>\<rparr>)\<rparr>))
         else (case HScroll ly of
                 None \<Rightarrow> Inr ly
               | Some sc \<Rightarrow> Inr (ly\<lparr>HScroll := Some (DeactivateScroll sc)\<rparr>)))"

definition layoutVScroll :: "Layout \<Rightarrow> error + Layout" where
  "layoutVScroll ly =
     (let sbw = ScrollBarWidth (Layout (Style ly));
          lyd = LayData ly
      in if HasVScroll ly
         then (case VScroll ly of
                 None \<Rightarrow> Inl NilPointer
               | Some sc \<Rightarrow>
                   Inr (ly\<lparr>VScroll := Some (sc\<lparr>sbLayData := (sbLayData sc)
                     \<lparr>AllocPosRel := \<lparr>X = X (AllocPosRel lyd) + X (AllocSize lyd) - sbw - 2,
                                      Y = Y (AllocPosRel lyd)\<rparr>,
                      AllocPosOrig := AllocPos (sbLayData sc),
                      AllocSize := \<lparr>X = sbw,
                                    Y = (if HasHScroll ly then Y (AllocSize lyd) - sbw
                                          else Y (AllocSize lyd))\<rparr>\<rparr>\<rparr>)\<rparr>))
         else (case VScroll ly of
                 None \<Rightarrow> Inr ly
               | Some sc \<Rightarrow> Inr (ly\<lparr>VScroll := Some (DeactivateScroll sc)\<rparr>)))"

definition LayoutScrolls :: "Layout \<Rightarrow> error + Layout" where
  "LayoutScrolls ly =
     (case layoutHScroll ly of Inl e \<Rightarrow> Inl e | Inr ly1 \<Rightarrow> layoutVScroll ly1)"

definition ManageOverflow :: "Layout \<Rightarrow> error + Layout" where
  "ManageOverflow ly =
     (if length (Kids ly) = 0 then Inr ly
      else
        let spc = BoxSpace (Style ly);
            avail = SubVal (AllocSize (LayData ly)) spc;
            ly1 = ly\<lparr>ExtraSize := SetVal (ExtraSize ly) 0,
                     HasHScroll := False, HasVScroll := False\<rparr>
        in if Overflow (Layout (Style ly)) \<noteq> OverflowHidden
           then
             let sbw = ScrollBarWidth (Layout (Style ly));
                 ly2 = (if X (ChildSize ly1) > X avail
                        then ly1\<lparr>HasHScroll := True,
                                 ExtraSize := (ExtraSize ly1)\<lparr>Y := Y (ExtraSize ly1) + sbw\<rparr>\<rparr>
                        else ly1);
                 ly3 = (if Y (ChildSize ly2) > Y avail
                        then ly2\<lparr>HasVScroll := True,
                                 ExtraSize := (ExtraSize ly2)\<lparr>X := X (ExtraSize ly2) + sbw\<rparr>\<rparr>
                        else ly2);
                 ly4 = (if HasHScroll ly3 then SetHScroll ly3 else ly3);
                 ly5 = (if HasVScroll ly4 then SetVScroll ly4 else ly4)
             in LayoutScrolls ly5
           else Inr ly1)"

subsection \<open>The size invariant\<close>

text \<open>The invariant of the size preferences as the spec states it, on one dimension
  and on both: \<open>Need \<le> Pref\<close>, and both at most \<open>Max\<close> where \<open>Max \<ge> 0\<close>.\<close>

definition dimInvariant :: "SizePrefs \<Rightarrow> Dims2D \<Rightarrow> bool" where
  "dimInvariant sp d \<longleftrightarrow>
     Dim (Need sp) d \<le> Dim (Pref sp) d \<and>
     (0 \<le> Dim (Max' sp) d \<longrightarrow>
        Dim (Need sp) d \<le> Dim (Max' sp) d \<and> Dim (Pref sp) d \<le> Dim (Max' sp) d)"

definition SizeInvariant :: "SizePrefs \<Rightarrow> bool" where
  "SizeInvariant sp \<longleftrightarrow> dimInvariant sp DimX \<and> dimInvariant sp DimY"

text \<open>A layout with given children and given own size preferences and box spacing.\<close>

definition layoutWith :: "Node2DBase option list \<Rightarrow> SizePrefs \<Rightarrow> real \<Rightarrow> Layout" where
  "layoutWith kids sp spc =
     (layout0 kids)\<lparr>Style := Style0\<lparr>BoxSpace := spc\<rparr>, LayData := LayoutData0\<lparr>Size := sp\<rparr>\<rparr>"

definition vec :: "real \<Rightarrow> real \<Rightarrow> Vec2D" where
  "vec a b = \<lparr>X = a, Y = b\<rparr>"

definition prefs :: "Vec2D \<Rightarrow> Vec2D \<Rightarrow> Vec2D \<Rightarrow> SizePrefs" where
  "prefs need pref mx = \<lparr>Need = need, Pref = pref, Max' = mx\<rparr>"

definition node :: "SizePrefs \<Rightarrow> Node2DBase" where
  "node sp = Node0\<lparr>LayData := LayoutData0\<lparr>Size := sp\<rparr>\<rparr>"

text \<open>A value capped by the \<open>Max\<close> of the size preferences on a dimension, where that
  is not negative.\<close>

definition upToMax :: "SizePrefs \<Rightarrow> Dims2D \<Rightarrow> real \<Rightarrow> real" where
  "upToMax sp d v = (if 0 \<le> Dim (Max' sp) d then min v (Dim (Max' sp) d) else v)"

text \<open>Example layouts: one child in a container with box spacing 2, the container
  without and with a needed width of its own; a container whose own sizes exceed its
  \<open>Max\<close>; one with a negative box spacing.\<close>

definition gridChild :: Layout where
  "gridChild = layoutWith [Some (node (prefs (vec 10 5) (vec 30 5) (vec (- 1) 0)))]
                 (prefs (vec 0 0) (vec 0 0) (vec 0 0)) 2"

definition seeded :: Layout where
  "seeded = layoutWith [Some (node (prefs (vec 10 5) (vec 30 5) (vec (- 1) 0)))]
              (prefs (vec 40 0) (vec 0 0) (vec (- 1) 0)) 2"

definition capped :: Layout where
  "capped = layoutWith [Some Node0] (prefs (vec 10 10) (vec 10 10) (vec 5 5)) 0"

definition negSpaced :: Layout where
  "negSpaced = layoutWith [Some Node0] (prefs (vec 10 10) (vec 10 10) (vec (- 1) (- 1))) (- 2)"

subsection \<open>Overflowing a dimension\<close>

text \<open>The two tests of \<^verbatim>\<open>ManageOverflow\<close>, as functions of the style, the size of
  the children and the allocated size.\<close>

definition overflowsX :: "Layout \<Rightarrow> bool" where
  "overflowsX ly \<longleftrightarrow> Overflow (Layout (Style ly)) \<noteq> OverflowHidden \<and>
     X (ChildSize ly) > X (AllocSize (LayData ly)) - BoxSpace (Style ly)"

definition overflowsY :: "Layout \<Rightarrow> bool" where
  "overflowsY ly \<longleftrightarrow> Overflow (Layout (Style ly)) \<noteq> OverflowHidden \<and>
     Y (ChildSize ly) > Y (AllocSize (LayData ly)) - BoxSpace (Style ly)"

text \<open>A container without children that still carries the flags of an earlier layout,
  and a container with one child, wider than the space allocated, with scrollbars 16
  wide.\<close>

definition staleEmpty :: Layout where
  "staleEmpty = (layout0 [])\<lparr>HasHScroll := True, HasVScroll := True, ExtraSize := vec 16 16\<rparr>"

definition overflowing :: Layout where
  "overflowing =
     (layout0 [Some Node0])
       \<lparr>Style := Style0\<lparr>Layout := LayoutStyle0\<lparr>ScrollBarWidth := 16\<rparr>\<rparr>,
        LayData := LayoutData0\<lparr>AllocSize := vec 50 50\<rparr>,
        ChildSize := vec 100 10, HasVScroll := True, ExtraSize := vec 16 0\<rparr>"

subsection \<open>Children that take part, and what they ask of a grid\<close>

text \<open>The children for which \<^verbatim>\<open>KiToNode2D\<close> gives a node, in order.\<close>

fun nodes :: "Node2DBase option list \<Rightarrow> Node2DBase list" where
  "nodes [] = []"
| "nodes (None # cs) = nodes cs"
| "nodes (Some gi # cs) = gi # nodes cs"

text \<open>The column extents \<open>Col + ColSpan\<close> of the children that specify a column
  (\<open>Col > 0\<close>), and the row extents likewise.\<close>

definition askedCols :: "Node2DBase option list \<Rightarrow> int list" where
  "askedCols kids =
     map (\<lambda>gi. Col (Layout (Style gi)) + ColSpan (Layout (Style gi)))
       (filter (\<lambda>gi. 0 < Col (Layout (Style gi))) (nodes kids))"

definition askedRows :: "Node2DBase option list \<Rightarrow> int list" where
  "askedRows kids =
     map (\<lambda>gi. Row (Layout (Style gi)) + RowSpan (Layout (Style gi)))
       (filter (\<lambda>gi. 0 < Row (Layout (Style gi))) (nodes kids))"

text \<open>A grid with given children and a given number of columns in its style; a child
  placed at a given column with a given span.\<close>

definition gridOf :: "int \<Rightarrow> Node2DBase option list \<Rightarrow> Layout" where
  "gridOf n kids =
     (layout0 kids)\<lparr>Style := Style0\<lparr>Layout := LayoutStyle0\<lparr>Columns := n\<rparr>\<rparr>, Lay := LayoutGrid\<rparr>"

definition nodeAtCol :: "int \<Rightarrow> int \<Rightarrow> Node2DBase" where
  "nodeAtCol c sp = Node0\<lparr>Style := Style0\<lparr>Layout := LayoutStyle0\<lparr>Col := c, ColSpan := sp\<rparr>\<rparr>\<rparr>"

text \<open>The number of columns and the starting number of rows of a grid, stated apart from
  the loops: the columns are the largest of the style's \<open>Columns\<close> and the column
  extents asked for, or the floor of the square root of the number of children when
  that is 0; the rows start at the largest row extent asked for, or at the truncated
  quotient of the number of children by the columns when that is 0.\<close>

definition gridCols :: "Layout \<Rightarrow> int" where
  "gridCols ly =
     (let c = fold max (askedCols (Kids ly)) (Columns (Layout (Style ly)))
      in if c = 0 then \<lfloor>sqrt (real_of_int (int (length (Kids ly))))\<rfloor> else c)"

definition gridRowsStart :: "Layout \<Rightarrow> int" where
  "gridRowsStart ly =
     (let r = fold max (askedRows (Kids ly)) 0
      in if r = 0 then int (length (Kids ly)) sdiv gridCols ly else r)"

definition sevenKids :: "Node2DBase option list" where
  "sevenKids = [Some Node0, Some Node0, Some Node0, Some Node0, Some Node0, Some Node0,
                Some Node0]"

text \<open>Two grids of one cell: the cell stretches horizontally only, or vertically
  only.\<close>

definition stretchXCell :: Layout where
  "stretchXCell = gridOf 0 [Some (node (prefs (vec 0 0) (vec 0 0) (vec (- 1) 0)))]"

definition stretchYCell :: Layout where
  "stretchYCell = gridOf 0 [Some (node (prefs (vec 0 0) (vec 0 0) (vec 0 (- 1))))]"

text \<open>The \<open>Max\<close> of the column tracks on \<open>X\<close> and of the row tracks on \<open>Y\<close> after a
  gather pass.\<close>

definition trackMax :: "error + Layout \<Rightarrow> error + real list \<times> real list" where
  "trackMax r =
     (case r of
        Inl e \<Rightarrow> Inl e
      | Inr ly \<Rightarrow> Inr (map (\<lambda>tr. X (Max' (Size tr))) (GridDataCol ly),
                       map (\<lambda>tr. Y (Max' (Size tr))) (GridDataRow ly)))"

subsection \<open>The quantities of the linear allocation\<close>

text \<open>The locals \<^verbatim>\<open>avail\<close>, \<^verbatim>\<open>pref\<close> and \<^verbatim>\<open>need\<close> of \<^verbatim>\<open>LayoutAll\<close>: the
  allocated, preferred and needed extent of the container itself, less twice the box
  spacing.\<close>

definition availSpace :: "Dims2D \<Rightarrow> Layout \<Rightarrow> real" where
  "availSpace d ly = Dim (AllocSize (LayData ly)) d - 2 * BoxSpace (Style ly)"

definition prefSpace :: "Dims2D \<Rightarrow> Layout \<Rightarrow> real" where
  "prefSpace d ly = Dim (Pref (Size (LayData ly))) d - 2 * BoxSpace (Style ly)"

definition needSpace :: "Dims2D \<Rightarrow> Layout \<Rightarrow> real" where
  "needSpace d ly = Dim (Need (Size (LayData ly))) d - 2 * BoxSpace (Style ly)"

text \<open>The preferred sizes of the children that satisfy a candidate test.\<close>

definition candidatePrefs ::
  "(SizePrefs \<Rightarrow> bool) \<Rightarrow> Dims2D \<Rightarrow> Node2DBase option list \<Rightarrow> real list" where
  "candidatePrefs cand d kids =
     map (\<lambda>gi. Dim (Pref (Size (LayData gi))) d)
       (filter (\<lambda>gi. cand (Size (LayData gi))) (nodes kids))"

text \<open>The candidate test of the fallback branch.\<close>

definition stretchesNeed :: "Dims2D \<Rightarrow> SizePrefs \<Rightarrow> bool" where
  "stretchesNeed d sp \<longleftrightarrow> HasMaxStretch sp d \<or> CanStretchNeed sp d"

text \<open>A row with given children, allocated width and own needed and preferred width,
  without box spacing; and the allocated widths of the children of a result.\<close>

definition rowOf :: "Node2DBase option list \<Rightarrow> real \<Rightarrow> real \<Rightarrow> real \<Rightarrow> Layout" where
  "rowOf kids alloc need pref =
     (layout0 kids)\<lparr>LayData := LayoutData0\<lparr>AllocSize := vec alloc 0,
        Size := prefs (vec need 0) (vec pref 0) (vec 0 0)\<rparr>\<rparr>"

definition widths :: "error + Layout \<Rightarrow> error + real option list" where
  "widths r =
     (case r of
        Inl e \<Rightarrow> Inl e
      | Inr ly \<Rightarrow> Inr (map (map_option (\<lambda>gi. X (AllocSize (LayData gi)))) (Kids ly)))"

text \<open>The rows of the examples: two children that stretch, preferring 10 and 30, with 40
  to spare; two children preferring 50 each in 60, in a container whose own preferred
  width is 50; a child that prefers less than it needs; a row too narrow for what is
  preferred, with one child that can grow and one that cannot.\<close>

definition stretchRow :: Layout where
  "stretchRow =
     rowOf [Some (node (prefs (vec 0 0) (vec 10 0) (vec (- 1) 0))),
            Some (node (prefs (vec 0 0) (vec 30 0) (vec (- 1) 0)))] 80 0 40"

definition crowdedRow :: Layout where
  "crowdedRow =
     rowOf [Some (node (prefs (vec 10 0) (vec 50 0) (vec 100 0))),
            Some (node (prefs (vec 10 0) (vec 50 0) (vec 100 0)))] 60 20 50"

definition shyRow :: Layout where
  "shyRow =
     rowOf [Some (node (prefs (vec 30 0) (vec 20 0) (vec 0 0))),
            Some (node (prefs (vec 10 0) (vec 50 0) (vec 0 0)))] 60 40 50"

definition narrowRow :: Layout where
  "narrowRow =
     rowOf [Some (node (prefs (vec 10 0) (vec 50 0) (vec 100 0))),
            Some (node (prefs (vec 20 0) (vec 20 0) (vec 100 0)))] 40 30 70"

text \<open>The shares with those at the given indices set to 0.\<close>

definition collapsed :: "int list \<Rightarrow> real list \<Rightarrow> real list" where
  "collapsed idxs sp = map (\<lambda>j. if int j \<in> set idxs then 0 else sp ! j) [0..<length sp]"

section \<open>Properties\<close>

subsection \<open>The split view: normalisation\<close>

lemma sum_list_scale: "sum_list (map (\<lambda>sp. sp * c) xs) = sum_list xs * (c::real)"
  by (induction xs) (simp_all add: algebra_simps)

lemma sum_list_const: "sum_list (map (\<lambda>_. c) xs) = real (length xs) * (c::real)"
  by (induction xs) (simp_all add: algebra_simps)

lemma UpdateSplits_length:
  "Kids g \<noteq> [] \<Longrightarrow> length (Splits (UpdateSplits g)) = length (Kids g)"
  by (simp add: UpdateSplits_def Let_def)

lemma UpdateSplits_sum:
  assumes "Kids g \<noteq> []"
  shows "sum_list (Splits (UpdateSplits g)) = 1"
proof -
  define sz where "sz = length (Kids g)"
  define s0 where "s0 = (if length (Splits g) \<noteq> sz then replicate sz 0 else Splits g)"
  have sz: "sz \<noteq> 0" using assms by (simp add: sz_def)
  have len: "length s0 = sz" by (simp add: s0_def)
  have eq: "Splits (UpdateSplits g) =
      map (\<lambda>sp. sp * (1 / (if sum_list s0 = 0 then 1 else sum_list s0)))
        (if sum_list s0 = 0 then map (\<lambda>_. 1 / real sz) s0 else s0)"
    using sz unfolding UpdateSplits_def Let_def sz_def [symmetric] s0_def [symmetric]
    by simp
  show ?thesis
  proof (cases "sum_list s0 = 0")
    case True
    then show ?thesis using sz len by (simp add: eq sum_list_const o_def)
  next
    case False
    then show ?thesis unfolding eq by (simp only: sum_list_scale if_False) simp
  qed
qed

lemma UpdateSplits_even:
  assumes "Kids g \<noteq> []" "length (Splits g) \<noteq> length (Kids g) \<or> sum_list (Splits g) = 0"
  shows "Splits (UpdateSplits g) = replicate (length (Kids g)) (1 / real (length (Kids g)))"
  using assms by (auto simp: UpdateSplits_def Let_def map_replicate_const sum_list_replicate)

lemma UpdateSplits_scaled:
  assumes "length (Splits g) = length (Kids g)" "sum_list (Splits g) \<noteq> 0"
  shows "Splits (UpdateSplits g) = map (\<lambda>sp. sp * (1 / sum_list (Splits g))) (Splits g)"
  using assms by (auto simp: UpdateSplits_def Let_def)

lemma UpdateSplits_normal:
  assumes "length (Splits g) = length (Kids g)" "sum_list (Splits g) = 1"
  shows "UpdateSplits g = g"
  using assms by (auto simp: UpdateSplits_def Let_def)

lemma collapseIdxs_length:
  "length sp = sz \<Longrightarrow> \<exists>sp'. collapseIdxs sz idxs sp = Inr sp' \<and> length sp' = sz"
  by (induction idxs arbitrary: sp) auto

text \<open>
  C6 (amended). For a split view with at least one child, \<open>UpdateSplits\<close> leaves as
  many shares as there are children, and they sum to 1. When the number of shares
  differed from the number of children, the old shares are discarded (not kept): the
  slice is made anew, all zero, and every share becomes \<open>1/N\<close>; the same holds when the
  shares summed to 0. Otherwise each share is its old value times \<open>1/sum\<close>.
\<close>

theorem UpdateSplits_normalizes:
  assumes "Kids g \<noteq> []"
  shows "length (Splits (UpdateSplits g)) = length (Kids g)
       \<and> sum_list (Splits (UpdateSplits g)) = 1
       \<and> (length (Splits g) \<noteq> length (Kids g) \<or> sum_list (Splits g) = 0 \<longrightarrow>
            Splits (UpdateSplits g) = replicate (length (Kids g)) (1 / real (length (Kids g))))
       \<and> (length (Splits g) = length (Kids g) \<and> sum_list (Splits g) \<noteq> 0 \<longrightarrow>
            Splits (UpdateSplits g) = map (\<lambda>sp. sp * (1 / sum_list (Splits g))) (Splits g))"
  using assms UpdateSplits_length UpdateSplits_sum UpdateSplits_even UpdateSplits_scaled
  by blast

theorem UpdateSplits_normalizes_witness:
  "Kids (splitView 2 [1]) \<noteq> [] \<and> Kids (splitView 2 [1, 3]) \<noteq> []
   \<and> Splits (UpdateSplits (splitView 2 [1])) = [1 / 2, 1 / 2]
   \<and> Splits (UpdateSplits (splitView 2 [1, 3])) = [1 / 4, 3 / 4]
   \<and> sum_list (Splits (UpdateSplits (splitView 2 [1, 3]))) = 1"
  using UpdateSplits_normalizes [of "splitView 2 [1]"] UpdateSplits_normalizes [of "splitView 2 [1, 3]"]
  by (simp add: splitView_def numeral_2_eq_2)

text \<open>The claim as written kept the existing shares when the length changes: with one
  share \<open>[1]\<close> and two children the shares would be \<open>[1, 0]\<close>; the source gives
  \<open>[1/2, 1/2]\<close>.\<close>

theorem UpdateSplits_discards_counterexample:
  "Splits (UpdateSplits (splitView 2 [1])) = [1 / 2, 1 / 2]
   \<and> coerceKeeping 2 [1] = [1, 0]
   \<and> Splits (UpdateSplits (splitView 2 [1]))
       \<noteq> map (\<lambda>sp. sp * (1 / sum_list (coerceKeeping 2 [1]))) (coerceKeeping 2 [1])"
  by (simp add: UpdateSplits_def splitView_def coerceKeeping_def Let_def numeral_2_eq_2)

subsection \<open>The split view: collapse, restore, set\<close>

lemma UpdateSplits_Kids [simp]: "Kids (UpdateSplits g) = Kids g"
  by (simp add: UpdateSplits_def Let_def)

lemma UpdateSplits_SavedSplits [simp]: "SavedSplits (UpdateSplits g) = SavedSplits g"
  by (simp add: UpdateSplits_def Let_def)

lemma UpdateSplits_length_le:
  "length (Splits g) = length (Kids g) \<Longrightarrow> length (Splits (UpdateSplits g)) = length (Kids g)"
  by (simp add: UpdateSplits_def Let_def)

lemma UpdateSplits_cong:
  "length (Kids g) = length (Kids h) \<Longrightarrow> Splits g = Splits h \<Longrightarrow>
   Splits (UpdateSplits g) = Splits (UpdateSplits h)"
  by (simp add: UpdateSplits_def Let_def)

lemma Collapse_then_Restore_general:
  assumes len: "length (Splits g) = length (Kids g)"
  shows "\<exists>g1 g2. CollapseChild True idxs g = Inr g1 \<and> RestoreSplits g1 = Inr g2
                 \<and> Splits g2 = Splits (UpdateSplits g)"
proof (cases "Splits g = []")
  case True
  then have k: "Kids g = []" using len by simp
  define g0 where "g0 = g\<lparr>Splits := []\<rparr>"
  have k0: "Kids g0 = []" and s0: "Splits g0 = []" by (simp_all add: g0_def k)
  have c0: "collapseIdxs 0 idxs [] = Inr []" by (induction idxs) simp_all
  have u: "UpdateSplits g = g" using k by (simp add: UpdateSplits_def)
  have u0: "UpdateSplits g0 = g0" using k0 by (simp add: UpdateSplits_def)
  have c: "CollapseChild True idxs g = Inr g0"
    using True k c0 u0 by (simp add: CollapseChild_def SaveSplits_def g0_def)
  have i0: "g0\<lparr>Splits := []\<rparr> = g0" by (simp add: g0_def)
  have r: "RestoreSplits g0 = Inr g0"
    by (simp add: RestoreSplits_def SetSplits_def k0 s0 i0 u0 split: option.splits)
  from c r u s0 True show ?thesis by auto
next
  case False
  define gs where "gs = g\<lparr>SavedSplits := Some (Splits g)\<rparr>"
  have save: "SaveSplits g = gs" using False by (simp add: SaveSplits_def gs_def)
  obtain sp where sp: "collapseIdxs (length (Kids g)) idxs (Splits g) = Inr sp"
    and lsp: "length sp = length (Kids g)"
    using collapseIdxs_length [OF len] by blast
  define g1 where "g1 = UpdateSplits (gs\<lparr>Splits := sp\<rparr>)"
  have c: "CollapseChild True idxs g = Inr g1"
    by (simp add: CollapseChild_def save gs_def g1_def sp)
  have k1: "Kids g1 = Kids g" and s1: "SavedSplits g1 = Some (Splits g)"
    by (simp_all add: g1_def gs_def)
  have l1: "length (Splits g1) = length (Kids g)"
    unfolding g1_def using UpdateSplits_length_le [of "gs\<lparr>Splits := sp\<rparr>"] lsp
    by (simp add: gs_def)
  define g2 where "g2 = UpdateSplits (g1\<lparr>Splits := Splits g\<rparr>)"
  have r: "RestoreSplits g1 = Inr g2"
    by (simp add: RestoreSplits_def s1 SetSplits_def Let_def k1 l1 len g2_def)
  have "Splits g2 = Splits (UpdateSplits g)"
    unfolding g2_def by (rule UpdateSplits_cong) (simp_all add: k1)
  with c r show ?thesis by blast
qed

lemma SetSplits_twice:
  assumes len: "length (Splits g) = length (Kids g)" and args: "length (Kids g) \<le> length args"
  shows "\<exists>g1 g2. SetSplits args g = Inr g1 \<and> SetSplits args g1 = Inr g2
                 \<and> Splits g2 = Splits g1"
proof -
  define sz where "sz = length (Kids g)"
  define g1 where "g1 = UpdateSplits (g\<lparr>Splits := take sz args\<rparr>)"
  have mx: "min sz (length args) = sz" using args by (simp add: sz_def)
  have a: "SetSplits args g = Inr g1"
    using len by (simp add: SetSplits_def Let_def mx sz_def [symmetric] g1_def)
  have k1: "Kids g1 = Kids g" by (simp add: g1_def)
  have l1: "length (Splits g1) = sz"
    unfolding g1_def using UpdateSplits_length_le [of "g\<lparr>Splits := take sz args\<rparr>"] args
    by (simp add: sz_def)
  define g2 where "g2 = UpdateSplits (g1\<lparr>Splits := take sz args\<rparr>)"
  have b: "SetSplits args g1 = Inr g2"
    by (simp add: SetSplits_def Let_def k1 mx sz_def [symmetric] l1 g2_def)
  have "Splits g2 = Splits g1"
    unfolding g2_def g1_def by (rule UpdateSplits_cong) simp_all
  with a b show ?thesis by blast
qed

text \<open>
  C7 (amended). For a split view with as many shares as children, \<open>CollapseChild\<close>
  with \<open>save = true\<close> on any indices, followed by \<open>RestoreSplits\<close>, gives the shares
  before the collapse passed once more through the normalisation of \<open>UpdateSplits\<close>;
  when the shares before the collapse sum to exactly 1, the scaling factor is 1 and the
  result is exactly the shares before the collapse. In the exact arithmetic of this
  model normalised shares always sum to 1. In \<^verbatim>\<open>float64\<close> the equality needs the sum
  that \<open>UpdateSplits\<close> computes to be exactly \<^verbatim>\<open>1.0\<close>, which shares rounded by an
  earlier normalisation need not meet (the even shares of six children do not): there
  the restored shares are the saved ones rescaled. And \<open>SetSplits\<close> called twice with
  the same arguments gives the same shares both times, provided there are at least as
  many arguments as children.
\<close>

theorem Collapse_Restore_and_SetSplits_twice:
  assumes "length (Splits g) = length (Kids g)"
      and "length (Kids g) \<le> length args"
  shows "(\<exists>g1 g2. CollapseChild True idxs g = Inr g1 \<and> RestoreSplits g1 = Inr g2
                  \<and> Splits g2 = Splits (UpdateSplits g)
                  \<and> (sum_list (Splits g) = 1 \<longrightarrow> Splits g2 = Splits g))
       \<and> (\<exists>g1 g2. SetSplits args g = Inr g1 \<and> SetSplits args g1 = Inr g2
                  \<and> Splits g2 = Splits g1)"
proof -
  from Collapse_then_Restore_general [OF assms(1), of idxs] obtain g1 g2 where
    a: "CollapseChild True idxs g = Inr g1" "RestoreSplits g1 = Inr g2"
       "Splits g2 = Splits (UpdateSplits g)"
    by blast
  have "Splits g2 = Splits g" if "sum_list (Splits g) = 1"
    using a(3) UpdateSplits_normal [OF assms(1) that] by simp
  with a SetSplits_twice [OF assms] show ?thesis by blast
qed

theorem Collapse_Restore_and_SetSplits_twice_witness:
  "length (Splits (splitView 3 [1/2, 1/4, 1/4])) = length (Kids (splitView 3 [1/2, 1/4, 1/4]))
   \<and> sum_list (Splits (splitView 3 [1/2, 1/4, 1/4])) = 1
   \<and> length (Kids (splitView 3 [1/2, 1/4, 1/4])) \<le> length [2, 2, 2 :: real]
   \<and> (\<exists>g1 g2. CollapseChild True [1] (splitView 3 [1/2, 1/4, 1/4]) = Inr g1
        \<and> RestoreSplits g1 = Inr g2 \<and> Splits g2 = [1/2, 1/4, 1/4])
   \<and> (\<exists>g1 g2. SetSplits [2, 2, 2] (splitView 3 [1/2, 1/4, 1/4]) = Inr g1
        \<and> SetSplits [2, 2, 2] g1 = Inr g2 \<and> Splits g2 = Splits g1)
   \<and> length (Splits (splitView 2 [1, 3])) = length (Kids (splitView 2 [1, 3]))
   \<and> sum_list (Splits (splitView 2 [1, 3])) \<noteq> 1
   \<and> (\<exists>g1 g2. CollapseChild True [0] (splitView 2 [1, 3]) = Inr g1
        \<and> RestoreSplits g1 = Inr g2 \<and> Splits g2 = [1/4, 3/4])"
proof -
  have u: "Splits (UpdateSplits (splitView 2 [1, 3])) = [1/4, 3/4]"
    by (simp add: UpdateSplits_def splitView_def Let_def)
  have h1: "length (Splits (splitView 3 [1/2, 1/4, 1/4])) = length (Kids (splitView 3 [1/2, 1/4, 1/4]))"
    and h2: "sum_list (Splits (splitView 3 [1/2, 1/4, 1/4])) = 1"
    and h3: "length (Kids (splitView 3 [1/2, 1/4, 1/4])) \<le> length [2, 2, 2 :: real]"
    and s3: "Splits (splitView 3 [1/2, 1/4, 1/4]) = [1/2, 1/4, 1/4]"
    and h4: "length (Splits (splitView 2 [1, 3])) = length (Kids (splitView 2 [1, 3]))"
    and h5: "sum_list (Splits (splitView 2 [1, 3])) \<noteq> 1"
    and h6: "length (Kids (splitView 2 [1, 3])) \<le> length [2, 2 :: real]"
    by (simp_all add: splitView_def)
  from Collapse_Restore_and_SetSplits_twice [OF h1 h3, of "[1]"] h2 s3
       Collapse_Restore_and_SetSplits_twice [OF h4 h6, of "[0]"] u h1 h2 h3 h4 h5
  show ?thesis by auto
qed


text \<open>With fewer arguments than children \<open>SetSplits\<close> keeps the remaining shares of
  the current state, which the first call has rescaled: two children with shares
  \<open>[1/2, 1/2]\<close> and the argument \<open>1\<close> give \<open>[2/3, 1/3]\<close>, then \<open>[3/4, 1/4]\<close>.\<close>

theorem SetSplits_twice_counterexample:
  "length (Splits (splitView 2 [1/2, 1/2])) = length (Kids (splitView 2 [1/2, 1/2]))
   \<and> sum_list (Splits (splitView 2 [1/2, 1/2])) = 1
   \<and> SetSplits [1] (splitView 2 [1/2, 1/2]) = Inr (splitView 2 [2/3, 1/3])
   \<and> SetSplits [1] (splitView 2 [2/3, 1/3]) = Inr (splitView 2 [3/4, 1/4])
   \<and> Splits (splitView 2 [2/3, 1/3]) \<noteq> Splits (splitView 2 [3/4, 1/4])"
  by (simp add: SetSplits_def UpdateSplits_def splitView_def Let_def numeral_2_eq_2)

subsection \<open>Index requests\<close>

lemma collapseIdxs_skip:
  "\<not> (0 \<le> i \<and> i < int sz) \<Longrightarrow>
   collapseIdxs sz (is1 @ i # is2) sp = collapseIdxs sz (is1 @ is2) sp"
  by (induction is1 arbitrary: sp) auto

lemma CollapseChild_skip:
  "\<not> (0 \<le> i \<and> i < int (length (Kids g))) \<Longrightarrow>
   CollapseChild save (is1 @ i # is2) g = CollapseChild save (is1 @ is2) g"
proof -
  assume a: "\<not> (0 \<le> i \<and> i < int (length (Kids g)))"
  have k: "Kids (if save then SaveSplits g else g) = Kids g"
    by (simp add: SaveSplits_def)
  show ?thesis
    unfolding CollapseChild_def Let_def k
    using collapseIdxs_skip [OF a] by simp
qed

lemma collapsed_length [simp]: "length (collapsed idxs sp) = length sp"
  by (simp add: collapsed_def)

lemma collapsed_nth:
  "j < length sp \<Longrightarrow> collapsed idxs sp ! j = (if int j \<in> set idxs then 0 else sp ! j)"
  by (simp add: collapsed_def)

lemma collapsed_Nil: "collapsed [] sp = sp"
  by (rule nth_equalityI) (simp_all add: collapsed_nth)

lemma collapsed_Cons_in:
  assumes "0 \<le> i" and "nat i < length sp"
  shows "collapsed idxs (sp[nat i := 0]) = collapsed (i # idxs) sp"
proof (rule nth_equalityI)
  show "length (collapsed idxs (sp[nat i := 0])) = length (collapsed (i # idxs) sp)" by simp
next
  fix j assume "j < length (collapsed idxs (sp[nat i := 0]))"
  then have j: "j < length sp" by simp
  have "int j = i \<longleftrightarrow> j = nat i" using assms(1) by auto
  then show "collapsed idxs (sp[nat i := 0]) ! j = collapsed (i # idxs) sp ! j"
    using j by (auto simp: collapsed_nth nth_list_update)
qed

lemma collapsed_Cons_out:
  assumes "\<not> (0 \<le> i \<and> i < int (length sp))"
  shows "collapsed (i # idxs) sp = collapsed idxs sp"
proof (rule nth_equalityI)
  show "length (collapsed (i # idxs) sp) = length (collapsed idxs sp)" by simp
next
  fix j assume "j < length (collapsed (i # idxs) sp)"
  then have j: "j < length sp" by simp
  then have "int j \<noteq> i" using assms by auto
  then show "collapsed (i # idxs) sp ! j = collapsed idxs sp ! j"
    using j by (simp add: collapsed_nth)
qed

lemma collapseIdxs_collapsed:
  "length sp = sz \<Longrightarrow> collapseIdxs sz idxs sp = Inr (collapsed idxs sp)"
proof (induction idxs arbitrary: sp)
  case Nil
  then show ?case by (simp add: collapsed_Nil)
next
  case (Cons i idxs)
  show ?case
  proof (cases "0 \<le> i \<and> i < int sz")
    case True
    then have n: "nat i < length sp" using Cons.prems by linarith
    have "collapseIdxs sz idxs (sp[nat i := 0]) = Inr (collapsed idxs (sp[nat i := 0]))"
      using Cons.IH [of "sp[nat i := 0]"] Cons.prems by simp
    then show ?thesis using True n collapsed_Cons_in [of i sp idxs] by simp
  next
    case False
    then have "collapsed (i # idxs) sp = collapsed idxs sp"
      using collapsed_Cons_out [of i sp idxs] Cons.prems by simp
    then show ?thesis using False Cons.IH [OF Cons.prems] by auto
  qed
qed

lemma collapseIdxs_returns:
  "\<forall>i\<in>set idxs. 0 \<le> i \<and> i < int sz \<longrightarrow> nat i < length sp \<Longrightarrow>
   \<exists>sp'. collapseIdxs sz idxs sp = Inr sp'"
proof (induction idxs arbitrary: sp)
  case Nil
  then show ?case by simp
next
  case (Cons i idxs)
  have t: "\<forall>j\<in>set idxs. 0 \<le> j \<and> j < int sz \<longrightarrow> nat j < length (sp[nat i := 0])"
    using Cons.prems by simp
  have t': "\<forall>j\<in>set idxs. 0 \<le> j \<and> j < int sz \<longrightarrow> nat j < length sp"
    using Cons.prems by simp
  show ?case
  proof (cases "0 \<le> i \<and> i < int sz")
    case True
    then have "nat i < length sp" using Cons.prems by simp
    with True Cons.IH [OF t] show ?thesis by simp
  next
    case False
    with Cons.IH [OF t'] show ?thesis by auto
  qed
qed

lemma collapseIdxs_panics:
  "\<exists>i\<in>set idxs. 0 \<le> i \<and> i < int sz \<and> length sp \<le> nat i \<Longrightarrow>
   collapseIdxs sz idxs sp = Inl IndexOutOfRange"
proof (induction idxs arbitrary: sp)
  case Nil
  then show ?case by simp
next
  case (Cons i idxs)
  show ?case
  proof (cases "0 \<le> i \<and> i < int sz")
    case True
    show ?thesis
    proof (cases "nat i < length sp")
      case l: True
      then have "\<exists>j\<in>set idxs. 0 \<le> j \<and> j < int sz \<and> length (sp[nat i := 0]) \<le> nat j"
        using Cons.prems by auto
      from Cons.IH [OF this] True l show ?thesis by simp
    next
      case False
      with True show ?thesis by simp
    qed
  next
    case False
    then have "\<exists>j\<in>set idxs. 0 \<le> j \<and> j < int sz \<and> length sp \<le> nat j"
      using Cons.prems by auto
    from Cons.IH [OF this] False show ?thesis by auto
  qed
qed

lemma CollapseChild_unfold:
  "CollapseChild save idxs g =
     (case collapseIdxs (length (Kids g)) idxs (Splits g) of
        Inl e \<Rightarrow> Inl e
      | Inr sp \<Rightarrow> Inr (UpdateSplits ((if save then SaveSplits g else g)\<lparr>Splits := sp\<rparr>)))"
  by (simp add: CollapseChild_def SaveSplits_def Let_def)

lemma CollapseChild_returns:
  "\<forall>i\<in>set idxs. 0 \<le> i \<and> i < int (length (Kids g)) \<longrightarrow> nat i < length (Splits g) \<Longrightarrow>
   \<exists>g'. CollapseChild save idxs g = Inr g'"
  using collapseIdxs_returns [of idxs "length (Kids g)" "Splits g"]
  by (auto simp: CollapseChild_unfold)

lemma CollapseChild_panics:
  "\<exists>i\<in>set idxs. 0 \<le> i \<and> i < int (length (Kids g)) \<and> length (Splits g) \<le> nat i \<Longrightarrow>
   CollapseChild save idxs g = Inl IndexOutOfRange"
  using collapseIdxs_panics [of idxs "length (Kids g)" "Splits g"]
  by (simp add: CollapseChild_unfold)

lemma CollapseChild_shares:
  assumes len: "length (Splits g) = length (Kids g)"
  shows "\<exists>g'. CollapseChild save idxs g = Inr g'
           \<and> Splits g' = Splits (UpdateSplits (g\<lparr>Splits := collapsed idxs (Splits g)\<rparr>))
           \<and> (\<forall>i\<in>set idxs. 0 \<le> i \<and> i < int (length (Kids g)) \<longrightarrow>
                Splits g' ! nat i =
                  (if sum_list (collapsed idxs (Splits g)) = 0
                   then 1 / real (length (Kids g)) else 0))"
proof -
  define sp where "sp = collapsed idxs (Splits g)"
  define h where "h = g\<lparr>Splits := sp\<rparr>"
  define g' where "g' = UpdateSplits ((if save then SaveSplits g else g)\<lparr>Splits := sp\<rparr>)"
  have c: "CollapseChild save idxs g = Inr g'"
    using collapseIdxs_collapsed [OF len, of idxs]
    by (simp add: CollapseChild_unfold g'_def sp_def)
  have e: "Splits g' = Splits (UpdateSplits h)"
    unfolding g'_def h_def by (rule UpdateSplits_cong) (simp_all add: SaveSplits_def)
  have lh: "length (Splits h) = length (Kids h)" and kh: "Kids h = Kids g" and sh: "Splits h = sp"
    by (simp_all add: h_def sp_def len)
  have s: "Splits g' ! nat i = (if sum_list sp = 0 then 1 / real (length (Kids g)) else 0)"
    if i: "i \<in> set idxs" "0 \<le> i \<and> i < int (length (Kids g))" for i
  proof -
    have ni: "nat i < length (Kids g)" using i(2) by linarith
    then have ne: "Kids h \<noteq> []" using kh by auto
    show ?thesis
    proof (cases "sum_list sp = 0")
      case True
      then have "Splits (UpdateSplits h) = replicate (length (Kids g)) (1 / real (length (Kids g)))"
        using UpdateSplits_even [OF ne] sh kh by simp
      then show ?thesis using True ni e by simp
    next
      case False
      then have "Splits (UpdateSplits h) = map (\<lambda>x. x * (1 / sum_list sp)) sp"
        using UpdateSplits_scaled [OF lh] sh by simp
      moreover have "sp ! nat i = 0"
        unfolding sp_def using ni len i by (simp add: collapsed_nth)
      moreover have "nat i < length sp" using ni len by (simp add: sp_def)
      ultimately show ?thesis using False e by simp
    qed
  qed
  from c e s show ?thesis unfolding h_def sp_def by blast
qed

text \<open>
  C8 (amended). \<open>ShowChildAtIndex\<close> with an index outside the child sequence returns
  the invalid-argument error and leaves the layout, \<open>StackTop\<close> included, as it was;
  with an index in range it returns no error and sets \<open>StackTop\<close> to that child.
  \<open>CollapseChild\<close> returns no error value at all. An index outside
  \<open>[0, child count)\<close> is skipped silently: the call is the one without that index
  (the shares are still renormalised). The call returns when every index in range that
  it is given is also below the number of shares; when one of them is not, the write
  to the shares panics (index out of range), which is no error value either. On shares
  as many as children the call always returns, with the shares of the indices in range
  set to 0 and the whole renormalised: each such share is 0 afterwards, unless the
  shares then sum to 0, when every share becomes \<open>1/N\<close>.
\<close>

theorem index_requests:
  "(\<not> (0 \<le> idx \<and> idx < int (length (Kids ly))) \<longrightarrow>
      ShowChildAtIndex idx ly = (Some InvalidArgument, ly))
 \<and> (0 \<le> idx \<and> idx < int (length (Kids ly)) \<longrightarrow>
      ShowChildAtIndex idx ly = (None, ly\<lparr>StackTop := Some (nat idx)\<rparr>))
 \<and> (\<not> (0 \<le> i \<and> i < int (length (Kids g))) \<longrightarrow>
      CollapseChild save (is1 @ i # is2) g = CollapseChild save (is1 @ is2) g)
 \<and> ((\<forall>i\<in>set idxs. 0 \<le> i \<and> i < int (length (Kids g)) \<longrightarrow> nat i < length (Splits g)) \<longrightarrow>
      (\<exists>g'. CollapseChild save idxs g = Inr g'))
 \<and> ((\<exists>i\<in>set idxs. 0 \<le> i \<and> i < int (length (Kids g)) \<and> length (Splits g) \<le> nat i) \<longrightarrow>
      CollapseChild save idxs g = Inl IndexOutOfRange)
 \<and> (length (Splits g) = length (Kids g) \<longrightarrow>
      (\<exists>g'. CollapseChild save idxs g = Inr g'
         \<and> Splits g' = Splits (UpdateSplits (g\<lparr>Splits := collapsed idxs (Splits g)\<rparr>))
         \<and> (\<forall>i\<in>set idxs. 0 \<le> i \<and> i < int (length (Kids g)) \<longrightarrow>
              Splits g' ! nat i =
                (if sum_list (collapsed idxs (Splits g)) = 0
                 then 1 / real (length (Kids g)) else 0))))"
  using CollapseChild_skip [of i g save is1 is2] CollapseChild_returns [of idxs g save]
        CollapseChild_panics [of idxs g save] CollapseChild_shares [of g save idxs]
  by (simp add: ShowChildAtIndex_def ValidIndex_def)

theorem index_requests_witness:
  "ShowChildAtIndex 2 (layout0 [Some Node0, Some Node0]) =
     (Some InvalidArgument, layout0 [Some Node0, Some Node0])
 \<and> ShowChildAtIndex 1 (layout0 [Some Node0, Some Node0]) =
     (None, (layout0 [Some Node0, Some Node0])\<lparr>StackTop := Some 1\<rparr>)
 \<and> CollapseChild False [0, 5] (splitView 2 [1/2, 1/2]) =
     CollapseChild False [0] (splitView 2 [1/2, 1/2])
 \<and> (\<exists>g'. CollapseChild False [0, 5] (splitView 2 [1/2, 1/2]) = Inr g' \<and> Splits g' = [0, 1])
 \<and> (\<exists>g'. CollapseChild True [0, 1] (splitView 2 [1/2, 1/2]) = Inr g'
        \<and> Splits g' = [1/2, 1/2])
 \<and> CollapseChild False [1] (splitView 2 []) = Inl IndexOutOfRange"
proof -
  have k: "length (Kids (layout0 [Some Node0, Some Node0])) = 2"
    and l: "length (Kids (splitView 2 [1/2, 1/2])) = 2"
           "Splits (splitView 2 [1/2, 1/2]) = [1/2, 1/2]"
           "length (Kids (splitView 2 [])) = 2" "Splits (splitView 2 []) = []"
    by (simp_all add: layout0_def splitView_def)
  have c1: "collapsed [0, 5] [1/2, 1/2] = [0, 1/2]" and c2: "collapsed [0, 1] [1/2, 1/2] = [0, 0]"
    by (simp_all add: collapsed_def upt_rec)
  have u1: "Splits (UpdateSplits ((splitView 2 [1/2, 1/2])\<lparr>Splits := [0, 1/2]\<rparr>)) = [0, 1]"
    and u2: "Splits (UpdateSplits ((splitView 2 [1/2, 1/2])\<lparr>Splits := [0, 0]\<rparr>)) = [1/2, 1/2]"
    by (simp_all add: UpdateSplits_def splitView_def Let_def)
  have len: "length (Splits (splitView 2 [1/2, 1/2])) = length (Kids (splitView 2 [1/2, 1/2]))"
    by (simp add: l)
  note A = index_requests [of 2 "layout0 [Some Node0, Some Node0]" 5 "splitView 2 [1/2, 1/2]"
                             False "[0]" "[]" "[0, 5]"]
  have a: "ShowChildAtIndex 2 (layout0 [Some Node0, Some Node0]) =
             (Some InvalidArgument, layout0 [Some Node0, Some Node0])"
    using A by (simp add: k)
  have b: "CollapseChild False [0, 5] (splitView 2 [1/2, 1/2]) =
             CollapseChild False [0] (splitView 2 [1/2, 1/2])"
    using A by (simp add: l)
  from A len obtain g1 where g1: "CollapseChild False [0, 5] (splitView 2 [1/2, 1/2]) = Inr g1"
      "Splits g1 = Splits (UpdateSplits ((splitView 2 [1/2, 1/2])
                     \<lparr>Splits := collapsed [0, 5] (Splits (splitView 2 [1/2, 1/2]))\<rparr>))"
    by blast
  have "Splits g1 = [0, 1]" unfolding g1(2) l c1 u1 ..
  with g1(1) have c: "\<exists>g'. CollapseChild False [0, 5] (splitView 2 [1/2, 1/2]) = Inr g'
                        \<and> Splits g' = [0, 1]"
    by blast
  note B = index_requests [of 1 "layout0 [Some Node0, Some Node0]" 5 "splitView 2 [1/2, 1/2]"
                             True "[0]" "[]" "[0, 1]"]
  have d: "ShowChildAtIndex 1 (layout0 [Some Node0, Some Node0]) =
             (None, (layout0 [Some Node0, Some Node0])\<lparr>StackTop := Some 1\<rparr>)"
    using B by (simp add: k)
  from B len obtain g2 where g2: "CollapseChild True [0, 1] (splitView 2 [1/2, 1/2]) = Inr g2"
      "Splits g2 = Splits (UpdateSplits ((splitView 2 [1/2, 1/2])
                     \<lparr>Splits := collapsed [0, 1] (Splits (splitView 2 [1/2, 1/2]))\<rparr>))"
    by blast
  have "Splits g2 = [1/2, 1/2]" unfolding g2(2) l c2 u2 ..
  with g2(1) have e: "\<exists>g'. CollapseChild True [0, 1] (splitView 2 [1/2, 1/2]) = Inr g'
                        \<and> Splits g' = [1/2, 1/2]"
    by blast
  have f: "CollapseChild False [1] (splitView 2 []) = Inl IndexOutOfRange"
    using index_requests [of 1 "layout0 [Some Node0, Some Node0]" 5 "splitView 2 []"
                            False "[]" "[]" "[1]"]
    by (simp add: l)
  from a b c d e f show ?thesis by blast
qed

text \<open>An index out of range passed to \<open>CollapseChild\<close> is not reported: the call
  returns normally.\<close>

theorem CollapseChild_no_error_counterexample:
  "\<not> (0 \<le> (5::int) \<and> 5 < int (length (Kids (splitView 2 [1/2, 1/2]))))
   \<and> CollapseChild False [5] (splitView 2 [1/2, 1/2]) = Inr (splitView 2 [1/2, 1/2])"
  by (simp add: CollapseChild_def UpdateSplits_def splitView_def Let_def)

subsection \<open>The gather passes\<close>

lemma MinPos_mono: "a \<le> b \<Longrightarrow> MinPos a m \<le> MinPos b m"
  by (auto simp: MinPos_def min_def)

lemma MinPos_le: "0 \<le> m \<Longrightarrow> MinPos a m \<le> m"
  by (simp add: MinPos_def)

lemma UpdateSizes_Need:
  "Dim (Need (Size (UpdateSizes ld))) d =
     MinPos (max (Dim (Need (Size ld)) d) (Dim (AllocSize ld) d)) (Dim (Max' (Size ld)) d)"
  by (cases d) (simp_all add: UpdateSizes_def Let_def SetMax_def SetMinPos_def)

lemma UpdateSizes_Pref:
  "Dim (Pref (Size (UpdateSizes ld))) d =
     MinPos (max (Dim (Pref (Size ld)) d) (max (Dim (Need (Size ld)) d) (Dim (AllocSize ld) d)))
            (Dim (Max' (Size ld)) d)"
  by (cases d) (simp_all add: UpdateSizes_def Let_def SetMax_def SetMinPos_def)

lemma UpdateSizes_Max [simp]: "Max' (Size (UpdateSizes ld)) = Max' (Size ld)"
  by (simp add: UpdateSizes_def Let_def)

lemma UpdateSizes_dimInvariant: "dimInvariant (Size (UpdateSizes ld)) d"
  unfolding dimInvariant_def UpdateSizes_Need UpdateSizes_Pref UpdateSizes_Max
  by (auto simp: MinPos_def)

lemma UpdateSizes_invariant: "SizeInvariant (Size (UpdateSizes ld))"
  by (simp add: SizeInvariant_def UpdateSizes_dimInvariant)

lemma gatherKids_invariant:
  "gatherKids cs acc = (cs', acc') \<Longrightarrow> Some gi \<in> set cs' \<Longrightarrow> SizeInvariant (Size (LayData gi))"
proof (induction cs acc arbitrary: cs' acc' rule: gatherKids.induct)
  case (1 acc)
  then show ?case by simp
next
  case (2 cs acc)
  then show ?case by (auto split: prod.splits)
next
  case (3 gi0 cs acc)
  then show ?case by (auto simp: Let_def UpdateSizes_invariant split: prod.splits)
qed

lemma gatherGridKids_invariant:
  "gatherGridKids cols rows cs col row gr gc = Inr (cs', gr', gc') \<Longrightarrow>
   Some gi \<in> set cs' \<Longrightarrow> SizeInvariant (Size (LayData gi))"
proof (induction cols rows cs col row gr gc arbitrary: cs' gr' gc' rule: gatherGridKids.induct)
  case (1 cols rows col row gr gc)
  then show ?case by simp
next
  case (2 cols rows cs col row gr gc)
  then show ?case by (auto split: sum.splits prod.splits)
next
  case (3 cols rows gi0 cs col row gr gc)
  then show ?case
    by (auto simp: Let_def UpdateSizes_invariant split: sum.splits prod.splits if_splits)
qed

lemma GatherSizes_LayData:
  "Kids ly \<noteq> [] \<Longrightarrow> \<exists>sp. LayData (GatherSizes ly) = UpdateSizes ((LayData ly)\<lparr>Size := sp\<rparr>)"
  by (auto simp: GatherSizes_def Let_def split: prod.splits)

lemma GatherSizesGrid_LayData:
  "Kids ly \<noteq> [] \<Longrightarrow> GatherSizesGrid ly = Inr ly' \<Longrightarrow>
   \<exists>sp. LayData ly' = UpdateSizes ((LayData ly)\<lparr>Size := sp\<rparr>)"
  by (auto simp: GatherSizesGrid_def Let_def split: prod.splits sum.splits)

lemma GatherSizes_kids_invariant:
  "Some gi \<in> set (Kids (GatherSizes ly)) \<Longrightarrow> Kids ly \<noteq> [] \<Longrightarrow> SizeInvariant (Size (LayData gi))"
  by (auto simp: GatherSizes_def Let_def split: prod.splits dest: gatherKids_invariant)

lemma GatherSizesGrid_kids_invariant:
  "GatherSizesGrid ly = Inr ly' \<Longrightarrow> Kids ly \<noteq> [] \<Longrightarrow> Some gi \<in> set (Kids ly') \<Longrightarrow>
   SizeInvariant (Size (LayData gi))"
  by (auto simp: GatherSizesGrid_def Let_def split: prod.splits sum.splits
           dest: gatherGridKids_invariant)

text \<open>
  C5 (amended). For every container with at least one child, after a gather pass
  (\<open>GatherSizes\<close>, or \<open>GatherSizesGrid\<close> when it returns) the size invariant holds on
  both dimensions for the container and for each of its children: \<open>Need \<le> Pref\<close>,
  and \<open>Need \<le> Max\<close> and \<open>Pref \<le> Max\<close> where \<open>Max \<ge> 0\<close>. (A container without
  children returns before \<open>UpdateSizes\<close> and keeps its sizes as they were.)
\<close>

theorem gather_invariant:
  assumes "Kids ly \<noteq> []"
  shows "SizeInvariant (Size (LayData (GatherSizes ly)))
       \<and> (\<forall>gi. Some gi \<in> set (Kids (GatherSizes ly)) \<longrightarrow> SizeInvariant (Size (LayData gi)))
       \<and> (GatherSizesGrid ly = Inr ly' \<longrightarrow>
            SizeInvariant (Size (LayData ly'))
            \<and> (\<forall>gi. Some gi \<in> set (Kids ly') \<longrightarrow> SizeInvariant (Size (LayData gi))))"
proof -
  obtain sp where "LayData (GatherSizes ly) = UpdateSizes ((LayData ly)\<lparr>Size := sp\<rparr>)"
    using GatherSizes_LayData [OF assms] by blast
  then have a: "SizeInvariant (Size (LayData (GatherSizes ly)))"
    by (simp add: UpdateSizes_invariant)
  have b: "SizeInvariant (Size (LayData ly'))" if g: "GatherSizesGrid ly = Inr ly'"
  proof -
    obtain sp' where "LayData ly' = UpdateSizes ((LayData ly)\<lparr>Size := sp'\<rparr>)"
      using GatherSizesGrid_LayData [OF assms g] by blast
    then show ?thesis by (simp add: UpdateSizes_invariant)
  qed
  show ?thesis
    using a b assms GatherSizes_kids_invariant GatherSizesGrid_kids_invariant by blast
qed


text \<open>Unfolding the loop of the grid rows one step.\<close>

lemma growRows_stop: "\<not> rows * cols < sz \<Longrightarrow> growRows rows cols sz = Some rows"
  by (subst growRows.simps) simp

lemma growRows_step: "rows * cols < sz \<Longrightarrow> growRows rows cols sz = growRows (rows + 1) cols sz"
  by (subst growRows.simps) simp

theorem gather_invariant_witness:
  "Kids gridChild \<noteq> []
   \<and> SizeInvariant (Size (LayData (GatherSizes gridChild)))
   \<and> (\<exists>ly'. GatherSizesGrid gridChild = Inr ly' \<and> SizeInvariant (Size (LayData ly')))"
proof -
  have k: "Kids gridChild \<noteq> []"
    by (simp add: gridChild_def layoutWith_def layout0_def)
  have "\<exists>ly'. GatherSizesGrid gridChild = Inr ly'"
    by (simp add: GatherSizesGrid_def gridDims_def gridChild_def layoutWith_def layout0_def
          node_def Node0_def Style0_def LayoutStyle0_def signed_divide_int_def
          growRows_stop makeTracks_def Let_def)
  then obtain ly' where g: "GatherSizesGrid gridChild = Inr ly'" by blast
  from gather_invariant [OF k, of ly'] g show ?thesis using k by blast
qed

text \<open>A container without children, with a needed size of 10 and no preferred size:
  both gather passes return at once and leave \<open>Need > Pref\<close>.\<close>

theorem gather_without_children_counterexample:
  "GatherSizes (layoutWith [] (prefs (vec 10 10) (vec 0 0) (vec 0 0)) 0)
     = layoutWith [] (prefs (vec 10 10) (vec 0 0) (vec 0 0)) 0
   \<and> GatherSizesGrid (layoutWith [] (prefs (vec 10 10) (vec 0 0) (vec 0 0)) 0)
     = Inr (layoutWith [] (prefs (vec 10 10) (vec 0 0) (vec 0 0)) 0)
   \<and> \<not> SizeInvariant (Size (LayData (layoutWith [] (prefs (vec 10 10) (vec 0 0) (vec 0 0)) 0)))"
  by (simp add: GatherSizes_def GatherSizesGrid_def layoutWith_def layout0_def prefs_def vec_def
        SizeInvariant_def dimInvariant_def LayoutData0_def)

lemma upToMax_le: "upToMax sp d v \<le> v"
  by (simp add: upToMax_def)

lemma upToMax_MinPos: "Max' sp = Max' sp' \<Longrightarrow> v \<le> w \<Longrightarrow> upToMax sp d v \<le> MinPos w (Dim (Max' sp') d)"
  by (auto simp: upToMax_def MinPos_def min_def)

lemma gatherDim_Max [simp]: "Max' (gatherDim ly acc d sp) = Max' sp"
  by (simp add: gatherDim_def)

lemma gatherDim_Need: "Dim (Need sp) d \<le> Dim (Need (gatherDim ly acc d' sp)) d"
  by (cases d; cases d') (simp_all add: gatherDim_def SetMaxDim_def)

lemma gatherDim_Pref: "Dim (Pref sp) d \<le> Dim (Pref (gatherDim ly acc d' sp)) d"
  by (cases d; cases d') (simp_all add: gatherDim_def SetMaxDim_def)

lemma addSpacing_Max [simp]: "Max' (addSpacing spc sp) = Max' sp"
  by (simp add: addSpacing_def)

lemma addSpacing_Need: "0 \<le> spc \<Longrightarrow> Dim (Need sp) d \<le> Dim (Need (addSpacing spc sp)) d"
  by (cases d) (simp_all add: addSpacing_def SetAddVal_def)

lemma addSpacing_Pref: "0 \<le> spc \<Longrightarrow> Dim (Pref sp) d \<le> Dim (Pref (addSpacing spc sp)) d"
  by (cases d) (simp_all add: addSpacing_def SetAddVal_def)

lemma SetMax_ge: "Dim a d \<le> Dim (SetMax a b) d"
  by (cases d) (simp_all add: SetMax_def)

text \<open>What the final re-clamp keeps of a lower bound.\<close>

lemma UpdateSizes_keeps:
  assumes "Max' sp1 = Max' sp" 
      and "Dim (Need sp) d \<le> Dim (Need sp1) d" and "Dim (Pref sp) d \<le> Dim (Pref sp1) d"
  shows "upToMax sp d (Dim (Need sp) d) \<le> Dim (Need (Size (UpdateSizes (ld\<lparr>Size := sp1\<rparr>)))) d
       \<and> upToMax sp d (Dim (Pref sp) d) \<le> Dim (Pref (Size (UpdateSizes (ld\<lparr>Size := sp1\<rparr>)))) d"
  unfolding UpdateSizes_Need UpdateSizes_Pref
  using assms by (auto intro!: upToMax_MinPos)

lemma GatherSizes_LayData_shape:
  "Kids ly \<noteq> [] \<Longrightarrow>
   \<exists>acc. LayData (GatherSizes ly) =
     UpdateSizes ((LayData ly)\<lparr>Size := addSpacing (BoxSpace (Style ly))
        (gatherDim ly acc DimY (gatherDim ly acc DimX (Size (LayData ly))))\<rparr>)"
  by (auto simp: GatherSizes_def Let_def split: prod.splits)

lemma GatherSizesGrid_LayData_shape:
  "Kids ly \<noteq> [] \<Longrightarrow> GatherSizesGrid ly = Inr ly' \<Longrightarrow>
   \<exists>sn sp. LayData ly' =
     UpdateSizes ((LayData ly)\<lparr>Size := addSpacing (BoxSpace (Style ly))
        ((Size (LayData ly))\<lparr>Need := SetMax (Need (Size (LayData ly))) sn,
                              Pref := SetMax (Pref (Size (LayData ly))) sp\<rparr>)\<rparr>)"
  by (auto simp: GatherSizesGrid_def Let_def split: prod.splits sum.splits intro!: exI)

lemma GatherSizes_monotone:
  assumes spc: "0 \<le> BoxSpace (Style ly)"
  shows "upToMax (Size (LayData ly)) d (Dim (Need (Size (LayData ly))) d)
           \<le> Dim (Need (Size (LayData (GatherSizes ly)))) d
       \<and> upToMax (Size (LayData ly)) d (Dim (Pref (Size (LayData ly))) d)
           \<le> Dim (Pref (Size (LayData (GatherSizes ly)))) d"
proof (cases "Kids ly = []")
  case True
  then show ?thesis by (simp add: GatherSizes_def upToMax_le)
next
  case False
  then obtain acc where e: "LayData (GatherSizes ly) =
     UpdateSizes ((LayData ly)\<lparr>Size := addSpacing (BoxSpace (Style ly))
        (gatherDim ly acc DimY (gatherDim ly acc DimX (Size (LayData ly))))\<rparr>)"
    using GatherSizes_LayData_shape by blast
  define sp where "sp = Size (LayData ly)"
  define sp1 where "sp1 = addSpacing (BoxSpace (Style ly)) (gatherDim ly acc DimY (gatherDim ly acc DimX sp))"
  have m: "Max' sp1 = Max' sp" by (simp add: sp1_def)
  have n: "Dim (Need sp) d \<le> Dim (Need sp1) d"
    unfolding sp1_def
    using gatherDim_Need [of sp d ly acc DimX]
          gatherDim_Need [of "gatherDim ly acc DimX sp" d ly acc DimY]
          addSpacing_Need [OF spc, of "gatherDim ly acc DimY (gatherDim ly acc DimX sp)" d]
    by linarith
  have p: "Dim (Pref sp) d \<le> Dim (Pref sp1) d"
    unfolding sp1_def
    using gatherDim_Pref [of sp d ly acc DimX]
          gatherDim_Pref [of "gatherDim ly acc DimX sp" d ly acc DimY]
          addSpacing_Pref [OF spc, of "gatherDim ly acc DimY (gatherDim ly acc DimX sp)" d]
    by linarith
  show ?thesis
    unfolding e using UpdateSizes_keeps [OF m n p, of "LayData ly"]
    by (simp add: sp_def sp1_def)
qed

lemma GatherSizesGrid_monotone:
  assumes spc: "0 \<le> BoxSpace (Style ly)" and g: "GatherSizesGrid ly = Inr ly'"
  shows "upToMax (Size (LayData ly)) d (Dim (Need (Size (LayData ly))) d)
           \<le> Dim (Need (Size (LayData ly'))) d
       \<and> upToMax (Size (LayData ly)) d (Dim (Pref (Size (LayData ly))) d)
           \<le> Dim (Pref (Size (LayData ly'))) d"
proof (cases "Kids ly = []")
  case True
  then have "ly' = ly" using g by (simp add: GatherSizesGrid_def)
  then show ?thesis by (simp add: upToMax_le)
next
  case False
  define sp where "sp = Size (LayData ly)"
  from False g obtain sn spf where e: "LayData ly' =
     UpdateSizes ((LayData ly)\<lparr>Size := addSpacing (BoxSpace (Style ly))
        (sp\<lparr>Need := SetMax (Need sp) sn, Pref := SetMax (Pref sp) spf\<rparr>)\<rparr>)"
    unfolding sp_def using GatherSizesGrid_LayData_shape by blast
  define sp0 where "sp0 = sp\<lparr>Need := SetMax (Need sp) sn, Pref := SetMax (Pref sp) spf\<rparr>"
  define sp1 where "sp1 = addSpacing (BoxSpace (Style ly)) sp0"
  have m: "Max' sp1 = Max' sp" by (simp add: sp1_def sp0_def)
  have n: "Dim (Need sp) d \<le> Dim (Need sp1) d"
    unfolding sp1_def
    using SetMax_ge [of "Need sp" d sn] addSpacing_Need [OF spc, of sp0 d]
    by (simp add: sp0_def)
  have p: "Dim (Pref sp) d \<le> Dim (Pref sp1) d"
    unfolding sp1_def
    using SetMax_ge [of "Pref sp" d spf] addSpacing_Pref [OF spc, of sp0 d]
    by (simp add: sp0_def)
  show ?thesis
    unfolding e using UpdateSizes_keeps [OF m n p, of "LayData ly"]
    by (simp add: sp_def sp1_def sp0_def)
qed

text \<open>
  C9 (amended). With a box spacing that is not negative, on each dimension the
  container's \<open>Need\<close> and \<open>Pref\<close> after a gather pass (\<open>GatherSizes\<close>, or
  \<open>GatherSizesGrid\<close> when it returns) are at least their values before the pass where
  the container's \<open>Max\<close> is negative, and at least the smaller of that value and
  \<open>Max\<close> where \<open>Max \<ge> 0\<close>: the children never reduce them, only the final clamp to
  the container's own \<open>Max\<close> does.
\<close>

theorem gather_monotone_up_to_Max:
  assumes "0 \<le> BoxSpace (Style ly)"
  shows "upToMax (Size (LayData ly)) d (Dim (Need (Size (LayData ly))) d)
           \<le> Dim (Need (Size (LayData (GatherSizes ly)))) d
       \<and> upToMax (Size (LayData ly)) d (Dim (Pref (Size (LayData ly))) d)
           \<le> Dim (Pref (Size (LayData (GatherSizes ly)))) d
       \<and> (GatherSizesGrid ly = Inr ly' \<longrightarrow>
            upToMax (Size (LayData ly)) d (Dim (Need (Size (LayData ly))) d)
              \<le> Dim (Need (Size (LayData ly'))) d
          \<and> upToMax (Size (LayData ly)) d (Dim (Pref (Size (LayData ly))) d)
              \<le> Dim (Pref (Size (LayData ly'))) d)"
  using GatherSizes_monotone [OF assms, of d] GatherSizesGrid_monotone [OF assms, of ly' d]
  by blast





theorem gather_monotone_up_to_Max_witness:
  "0 \<le> BoxSpace (Style seeded)
   \<and> upToMax (Size (LayData seeded)) DimX (Dim (Need (Size (LayData seeded))) DimX) = 40
   \<and> 40 \<le> Dim (Need (Size (LayData (GatherSizes seeded)))) DimX
   \<and> (\<exists>ly'. GatherSizesGrid seeded = Inr ly' \<and> 40 \<le> Dim (Need (Size (LayData ly'))) DimX)"
proof -
  have s: "0 \<le> BoxSpace (Style seeded)"
    by (simp add: seeded_def layoutWith_def Style0_def)
  have u: "upToMax (Size (LayData seeded)) DimX (Dim (Need (Size (LayData seeded))) DimX) = 40"
    by (simp add: seeded_def layoutWith_def upToMax_def prefs_def vec_def)
  have "\<exists>ly'. GatherSizesGrid seeded = Inr ly'"
    by (simp add: GatherSizesGrid_def gridDims_def seeded_def layoutWith_def layout0_def
          node_def Node0_def Style0_def LayoutStyle0_def signed_divide_int_def
          growRows_stop makeTracks_def Let_def)
  then obtain ly' where g: "GatherSizesGrid seeded = Inr ly'" by blast
  from gather_monotone_up_to_Max [OF s, of DimX ly'] g u s show ?thesis by auto
qed

text \<open>A needed width of 10 with a \<open>Max\<close> of 5 comes out as 5; with no bound and a box
  spacing of \<open>-2\<close> it comes out as 6.\<close>

theorem gather_reduces_counterexample:
  "X (Need (Size (LayData capped))) = 10
   \<and> X (Need (Size (LayData (GatherSizes capped)))) = 5
   \<and> X (Need (Size (LayData negSpaced))) = 10
   \<and> X (Need (Size (LayData (GatherSizes negSpaced)))) = 6"
  by (simp add: capped_def negSpaced_def layoutWith_def layout0_def prefs_def vec_def
        GatherSizes_def gatherDim_def SumDim_def addSpacing_def UpdateSizes_def Let_def
        SetMaxDim_def SetAddVal_def SetMax_def SetMinPos_def MinPos_def Add_def Max2D_def
        Node0_def LayoutData0_def Vec2DZero_def Style0_def)

subsection \<open>Overflow\<close>

lemma ManageOverflow_empty: "Kids ly = [] \<Longrightarrow> ManageOverflow ly = Inr ly"
  by (simp add: ManageOverflow_def)

lemma ManageOverflow_result:
  assumes "Kids ly \<noteq> []"
  shows "\<exists>ly'. ManageOverflow ly = Inr ly'
      \<and> HasHScroll ly' = overflowsX ly \<and> HasVScroll ly' = overflowsY ly
      \<and> ExtraSize ly' = \<lparr>X = (if overflowsY ly then ScrollBarWidth (Layout (Style ly)) else 0),
                          Y = (if overflowsX ly then ScrollBarWidth (Layout (Style ly)) else 0)\<rparr>
      \<and> ChildSize ly' = ChildSize ly \<and> LayData ly' = LayData ly \<and> Style ly' = Style ly
      \<and> Kids ly' = Kids ly"
  using assms
  by (auto simp: ManageOverflow_def Let_def SetVal_def SubVal_def overflowsX_def overflowsY_def
        LayoutScrolls_def layoutHScroll_def layoutVScroll_def SetHScroll_def SetVScroll_def
        split: option.splits)

lemma ManageOverflow_again:
  assumes "Kids ly \<noteq> []"
  shows "\<exists>ly' ly''. ManageOverflow ly = Inr ly' \<and> ManageOverflow ly' = Inr ly''
      \<and> HasHScroll ly'' = HasHScroll ly' \<and> HasVScroll ly'' = HasVScroll ly'
      \<and> ExtraSize ly'' = ExtraSize ly'"
proof -
  obtain ly' where 1: "ManageOverflow ly = Inr ly'"
      and h: "HasHScroll ly' = overflowsX ly" and v: "HasVScroll ly' = overflowsY ly"
      and e: "ExtraSize ly' =
               \<lparr>X = (if overflowsY ly then ScrollBarWidth (Layout (Style ly)) else 0),
                Y = (if overflowsX ly then ScrollBarWidth (Layout (Style ly)) else 0)\<rparr>"
      and same: "ChildSize ly' = ChildSize ly" "LayData ly' = LayData ly"
                "Style ly' = Style ly" "Kids ly' = Kids ly"
    using ManageOverflow_result [OF assms] by blast
  have ox: "overflowsX ly' = overflowsX ly" and oy: "overflowsY ly' = overflowsY ly"
    by (simp_all add: overflowsX_def overflowsY_def same)
  have "Kids ly' \<noteq> []" using assms same by simp
  from ManageOverflow_result [OF this] obtain ly'' where 2: "ManageOverflow ly' = Inr ly''"
      and "HasHScroll ly'' = overflowsX ly'" and "HasVScroll ly'' = overflowsY ly'"
      and "ExtraSize ly'' =
               \<lparr>X = (if overflowsY ly' then ScrollBarWidth (Layout (Style ly')) else 0),
                Y = (if overflowsX ly' then ScrollBarWidth (Layout (Style ly')) else 0)\<rparr>"
    by blast
  then have "HasHScroll ly'' = HasHScroll ly' \<and> HasVScroll ly'' = HasVScroll ly'
      \<and> ExtraSize ly'' = ExtraSize ly'"
    by (simp add: h v e ox oy same)
  with 1 2 show ?thesis by blast
qed

text \<open>
  C10. \<open>ManageOverflow\<close> on a container without children returns at once and leaves
  the container, its two scroll flags and \<open>ExtraSize\<close> included, exactly as it was. On
  a container with a child it returns with the flags and \<open>ExtraSize\<close> recomputed from
  the size of the children and the allocated size (under the overflow policy, the box
  spacing and the scrollbar width of the style), whatever they were before; calling it
  again in the state it returned gives the same flags and the same \<open>ExtraSize\<close>.
\<close>

theorem ManageOverflow_frame:
  "(Kids ly = [] \<longrightarrow> ManageOverflow ly = Inr ly)
 \<and> (Kids ly \<noteq> [] \<longrightarrow>
      (\<exists>ly'. ManageOverflow ly = Inr ly'
         \<and> HasHScroll ly' = overflowsX ly \<and> HasVScroll ly' = overflowsY ly
         \<and> ExtraSize ly' =
             \<lparr>X = (if overflowsY ly then ScrollBarWidth (Layout (Style ly)) else 0),
              Y = (if overflowsX ly then ScrollBarWidth (Layout (Style ly)) else 0)\<rparr>
         \<and> (\<exists>ly''. ManageOverflow ly' = Inr ly''
               \<and> HasHScroll ly'' = HasHScroll ly' \<and> HasVScroll ly'' = HasVScroll ly'
               \<and> ExtraSize ly'' = ExtraSize ly')))"
proof (intro conjI impI)
  assume "Kids ly = []"
  then show "ManageOverflow ly = Inr ly" by (rule ManageOverflow_empty)
next
  assume k: "Kids ly \<noteq> []"
  from ManageOverflow_result [OF k] obtain ly' where 1: "ManageOverflow ly = Inr ly'"
      and r: "HasHScroll ly' = overflowsX ly" "HasVScroll ly' = overflowsY ly"
        "ExtraSize ly' =
               \<lparr>X = (if overflowsY ly then ScrollBarWidth (Layout (Style ly)) else 0),
                Y = (if overflowsX ly then ScrollBarWidth (Layout (Style ly)) else 0)\<rparr>"
    by blast
  from ManageOverflow_again [OF k] 1 obtain ly'' where "ManageOverflow ly' = Inr ly''"
     "HasHScroll ly'' = HasHScroll ly'" "HasVScroll ly'' = HasVScroll ly'"
     "ExtraSize ly'' = ExtraSize ly'"
    by auto
  with 1 r show "\<exists>ly'. ManageOverflow ly = Inr ly'
         \<and> HasHScroll ly' = overflowsX ly \<and> HasVScroll ly' = overflowsY ly
         \<and> ExtraSize ly' =
             \<lparr>X = (if overflowsY ly then ScrollBarWidth (Layout (Style ly)) else 0),
              Y = (if overflowsX ly then ScrollBarWidth (Layout (Style ly)) else 0)\<rparr>
         \<and> (\<exists>ly''. ManageOverflow ly' = Inr ly''
               \<and> HasHScroll ly'' = HasHScroll ly' \<and> HasVScroll ly'' = HasVScroll ly'
               \<and> ExtraSize ly'' = ExtraSize ly')"
    by blast
qed

theorem ManageOverflow_frame_witness:
  "Kids staleEmpty = [] \<and> ManageOverflow staleEmpty = Inr staleEmpty
   \<and> HasHScroll staleEmpty \<and> HasVScroll staleEmpty \<and> ExtraSize staleEmpty = vec 16 16
   \<and> Kids overflowing \<noteq> [] \<and> HasVScroll overflowing
   \<and> (\<exists>ly'. ManageOverflow overflowing = Inr ly'
         \<and> HasHScroll ly' \<and> \<not> HasVScroll ly' \<and> ExtraSize ly' = vec 0 16)"
proof -
  have e: "Kids staleEmpty = []" by (simp add: staleEmpty_def layout0_def)
  have k: "Kids overflowing \<noteq> []" by (simp add: overflowing_def layout0_def)
  have x: "overflowsX overflowing" and y: "\<not> overflowsY overflowing"
    and w: "ScrollBarWidth (Layout (Style overflowing)) = 16"
    by (simp_all add: overflowsX_def overflowsY_def overflowing_def layout0_def vec_def
          Style0_def LayoutStyle0_def LayoutData0_def)
  have s: "HasHScroll staleEmpty \<and> HasVScroll staleEmpty \<and> ExtraSize staleEmpty = vec 16 16
           \<and> HasVScroll overflowing"
    by (simp add: staleEmpty_def overflowing_def)
  from ManageOverflow_frame [of staleEmpty] ManageOverflow_frame [of overflowing] e k s
  show ?thesis by (auto simp: x y w vec_def)
qed

subsection \<open>The size of the grid\<close>

lemma growRows_terminates:
  assumes "0 < cols"
  shows "\<exists>r. growRows rows cols sz = Some r \<and> rows \<le> r \<and> sz \<le> r * cols
             \<and> (r = rows \<or> (r - 1) * cols < sz)"
proof (induction "nat (sz - rows * cols)" arbitrary: rows rule: less_induct)
  case less
  show ?case
  proof (cases "rows * cols < sz")
    case False
    then show ?thesis using growRows_stop [of rows cols sz] by auto
  next
    case True
    have "nat (sz - (rows + 1) * cols) < nat (sz - rows * cols)"
      using True assms by (simp add: algebra_simps)
    from less [OF this] obtain r where r: "growRows (rows + 1) cols sz = Some r"
      "rows + 1 \<le> r" "sz \<le> r * cols" "r = rows + 1 \<or> (r - 1) * cols < sz"
      by blast
    have "(r - 1) * cols < sz" using r(4) True by auto
    with r True show ?thesis using growRows_step [of rows cols sz] by auto
  qed
qed

lemma gridExtent_fold:
  "gridExtent kids (c, r) = (fold max (askedCols kids) c, fold max (askedRows kids) r)"
proof (induction kids arbitrary: c r)
  case Nil
  then show ?case by (simp add: askedCols_def askedRows_def)
next
  case (Cons k kids)
  show ?case
  proof (cases k)
    case None
    then show ?thesis using Cons by (simp add: askedCols_def askedRows_def)
  next
    case (Some gi)
    then show ?thesis using Cons
      by (simp add: askedCols_def askedRows_def Let_def max.commute)
  qed
qed

lemma fold_max_ge: "(c::int) \<le> fold max xs c"
proof (induction xs arbitrary: c)
  case Nil
  then show ?case by simp
next
  case (Cons x xs)
  have "c \<le> max x c" by simp
  also have "\<dots> \<le> fold max xs (max x c)" by (rule Cons)
  finally show ?case by simp
qed

lemma floor_sqrt_pos: "0 < sz \<Longrightarrow> 0 < \<lfloor>sqrt (real_of_int sz)\<rfloor>"
proof -
  assume "0 < sz"
  then have "1 \<le> real_of_int sz" by simp
  then have "1 \<le> sqrt (real_of_int sz)" by simp
  then show ?thesis by linarith
qed

lemma gridDims_resolved:
  assumes k: "Kids ly \<noteq> []" and c: "0 \<le> Columns (Layout (Style ly))"
  shows "\<exists>rows. gridDims ly = Inr (gridCols ly, rows) \<and> 0 < gridCols ly
            \<and> gridRowsStart ly \<le> rows \<and> int (length (Kids ly)) \<le> rows * gridCols ly
            \<and> (rows = gridRowsStart ly \<or> (rows - 1) * gridCols ly < int (length (Kids ly)))"
proof -
  define sz where "sz = int (length (Kids ly))"
  define cols0 where "cols0 = fold max (askedCols (Kids ly)) (Columns (Layout (Style ly)))"
  have sz: "0 < sz" using k by (simp add: sz_def)
  have "0 \<le> cols0" unfolding cols0_def using c fold_max_ge [of "Columns (Layout (Style ly))"]
    by (meson order_trans)
  then have cp: "0 < gridCols ly"
    unfolding gridCols_def Let_def cols0_def [symmetric] sz_def [symmetric]
    using floor_sqrt_pos [OF sz] by auto
  from growRows_terminates [OF cp, of "gridRowsStart ly" sz] obtain rows where
    r: "growRows (gridRowsStart ly) (gridCols ly) sz = Some rows" "gridRowsStart ly \<le> rows"
       "sz \<le> rows * gridCols ly"
       "rows = gridRowsStart ly \<or> (rows - 1) * gridCols ly < sz"
    by blast
  have "gridDims ly = Inr (gridCols ly, rows)"
    using r(1) unfolding gridDims_def gridExtent_fold gridRowsStart_def gridCols_def sz_def Let_def
    by simp
  with r cp show ?thesis unfolding sz_def by blast
qed

lemma GatherSizesGrid_GridSize_eq:
  "Kids ly \<noteq> [] \<Longrightarrow> GatherSizesGrid ly = Inr ly' \<Longrightarrow> gridDims ly = Inr (GridSize ly')"
  by (auto simp: GatherSizesGrid_def Let_def split: sum.splits prod.splits)

text \<open>
  C4 (amended). For a grid with at least one child and a \<open>Columns\<close> style that is
  not negative, the size of the grid is resolved: \<open>cols\<close> is the largest of the
  \<open>Columns\<close> style and the extents \<open>Col + ColSpan\<close> of the children with \<open>Col > 0\<close>
  (both count, not the one or else the other), or, when that is 0, the floor of the
  square root of the number of children (the source truncates, it does not round);
  \<open>rows\<close> starts at the largest \<open>Row + RowSpan\<close> of the children with \<open>Row > 0\<close>, or at
  the truncated quotient of the number of children by \<open>cols\<close> when that is 0, and is
  then increased, one at a time, until \<open>rows * cols\<close> is at least the number of
  children. \<open>GatherSizesGrid\<close>, when it returns, stores this size in \<open>GridSize\<close>. For
  \<open>Columns = 3\<close> and 7 children the size is \<open>(3, 3)\<close> (the witness).
\<close>

theorem GatherSizesGrid_GridSize:
  assumes "Kids ly \<noteq> []" and "0 \<le> Columns (Layout (Style ly))"
  shows "\<exists>rows. gridDims ly = Inr (gridCols ly, rows)
            \<and> gridRowsStart ly \<le> rows \<and> int (length (Kids ly)) \<le> rows * gridCols ly
            \<and> (rows = gridRowsStart ly \<or> (rows - 1) * gridCols ly < int (length (Kids ly)))
            \<and> (\<forall>ly'. GatherSizesGrid ly = Inr ly' \<longrightarrow> GridSize ly' = (gridCols ly, rows))"
proof -
  from gridDims_resolved [OF assms] obtain rows where
    r: "gridDims ly = Inr (gridCols ly, rows)" "gridRowsStart ly \<le> rows"
       "int (length (Kids ly)) \<le> rows * gridCols ly"
       "rows = gridRowsStart ly \<or> (rows - 1) * gridCols ly < int (length (Kids ly))"
    by blast
  have "GridSize ly' = (gridCols ly, rows)" if "GatherSizesGrid ly = Inr ly'" for ly'
    using GatherSizesGrid_GridSize_eq [OF assms(1) that] r(1) by simp
  with r show ?thesis by blast
qed

lemma floor_sqrt_3: "\<lfloor>sqrt 3\<rfloor> = (1::int)"
proof -
  have "sqrt 1 \<le> sqrt 3" by (simp only: real_sqrt_le_iff)
  moreover have "sqrt 3 < sqrt 4" by (simp only: real_sqrt_less_iff)
  moreover have "sqrt 4 = 2" using real_sqrt_abs [of 2] by simp
  ultimately show ?thesis by (simp add: floor_eq_iff)
qed

lemma round_sqrt_3: "round (sqrt 3) = (2::int)"
proof -
  have "(3/2)\<^sup>2 \<le> (3::real)" by (simp add: power2_eq_square)
  then have "3/2 \<le> sqrt 3" by (rule real_le_rsqrt)
  moreover have "sqrt 3 < sqrt 4" by (simp only: real_sqrt_less_iff)
  moreover have "sqrt 4 = 2" using real_sqrt_abs [of 2] by simp
  ultimately show ?thesis by (simp add: round_def floor_eq_iff)
qed

text \<open>Three children and nothing specified: the source takes the floor of the square
  root, 1 column (and 3 rows), where rounding gives 2. A \<open>Columns\<close> style of 3 with a
  child at column 5 of span 1: 6 columns, not 3.\<close>

theorem grid_cols_counterexample:
  "gridDims (gridOf 0 [Some Node0, Some Node0, Some Node0]) = Inr (1, 3)
   \<and> round (sqrt (real_of_int (int (length [Some Node0, Some Node0, Some Node0])))) = (2::int)
   \<and> Columns (Layout (Style (gridOf 3 [Some (nodeAtCol 5 1)]))) = 3
   \<and> gridDims (gridOf 3 [Some (nodeAtCol 5 1)]) = Inr (6, 1)"
  by (simp add: gridDims_def gridOf_def layout0_def Node0_def Style0_def LayoutStyle0_def
        nodeAtCol_def Let_def floor_sqrt_3 round_sqrt_3 signed_divide_int_def
        growRows_stop growRows_step)

theorem GatherSizesGrid_GridSize_witness:
  "Kids (gridOf 3 sevenKids) \<noteq> [] \<and> 0 \<le> Columns (Layout (Style (gridOf 3 sevenKids)))
   \<and> length (Kids (gridOf 3 sevenKids)) = 7
   \<and> gridDims (gridOf 3 sevenKids) = Inr (3, 3)
   \<and> (\<exists>ly'. GatherSizesGrid (gridOf 3 sevenKids) = Inr ly' \<and> GridSize ly' = (3, 3))"
proof -
  have k: "Kids (gridOf 3 sevenKids) \<noteq> []" and l: "length (Kids (gridOf 3 sevenKids)) = 7"
    by (simp_all add: gridOf_def layout0_def sevenKids_def)
  have c: "0 \<le> Columns (Layout (Style (gridOf 3 sevenKids)))"
    by (simp add: gridOf_def layout0_def Style0_def LayoutStyle0_def)
  have gc: "gridCols (gridOf 3 sevenKids) = 3"
    by (simp add: gridCols_def gridOf_def layout0_def sevenKids_def askedCols_def
          Node0_def Style0_def LayoutStyle0_def)
  have ar: "fold max (askedRows (Kids (gridOf 3 sevenKids))) 0 = 0"
    by (simp add: gridOf_def layout0_def sevenKids_def askedRows_def
          Node0_def Style0_def LayoutStyle0_def)
  have gr: "gridRowsStart (gridOf 3 sevenKids) = 2"
    unfolding gridRowsStart_def Let_def ar gc l by (simp add: signed_divide_int_def)
  from GatherSizesGrid_GridSize [OF k c] obtain rows where
    r: "gridDims (gridOf 3 sevenKids) = Inr (3, rows)" "2 \<le> rows" "7 \<le> rows * 3"
       "rows = 2 \<or> (rows - 1) * 3 < 7"
       "\<forall>ly'. GatherSizesGrid (gridOf 3 sevenKids) = Inr ly' \<longrightarrow> GridSize ly' = (3, rows)"
    unfolding gc gr l by auto
  have rows: "rows = 3" using r(2,3,4) by presburger
  have "\<exists>ly'. GatherSizesGrid (gridOf 3 sevenKids) = Inr ly'"
    unfolding GatherSizesGrid_def using r(1) rows
    by (simp add: k) (simp add: gridOf_def layout0_def sevenKids_def makeTracks_def Let_def
          Node0_def Style0_def LayoutStyle0_def eval_nat_numeral)
  with r rows k c l show ?thesis by auto
qed

subsection \<open>The stretch of a grid track\<close>

text \<open>
  C3. The claim: a column track takes \<open>Max.X = -1\<close> once a member cell has
  \<open>Max.X < 0\<close>, a row track takes \<open>Max.Y = -1\<close> once a member cell has \<open>Max.Y < 0\<close>.
  The source tests the \<open>Y\<close> component of the cell for both tracks. In a grid of one
  cell that stretches horizontally only (\<open>Max = (-1, 0)\<close>) the column track keeps
  \<open>Max.X = 0\<close>; in one that stretches vertically only (\<open>Max = (0, -1)\<close>) the column
  track takes \<open>Max.X = -1\<close> with no cell that stretches horizontally. The row tracks
  are as claimed.
\<close>

theorem column_track_tests_Max_Y:
  "trackMax (GatherSizesGrid stretchXCell) = Inr ([0], [0])
   \<and> trackMax (GatherSizesGrid stretchYCell) = Inr ([- 1], [- 1])"
  by (simp add: trackMax_def GatherSizesGrid_def gridDims_def stretchXCell_def stretchYCell_def
        gridOf_def layout0_def node_def prefs_def vec_def Node0_def Style0_def LayoutStyle0_def
        LayoutData0_def Vec2DZero_def signed_divide_int_def growRows_stop makeTracks_def
        resetTrack_def rowTrackUpdate_def colTrackUpdate_def UpdateSizes_def SetMax_def
        SetMinPos_def MinPos_def SetMaxDim_def addSpacing_def SetAddVal_def Let_def)

subsection \<open>The linear allocation\<close>

lemma stretchTotal_eq:
  "stretchTotal cand d kids (n, t) =
     (n + length (candidatePrefs cand d kids), t + sum_list (candidatePrefs cand d kids))"
proof (induction kids arbitrary: n t)
  case Nil
  then show ?case by (simp add: candidatePrefs_def)
next
  case (Cons k kids)
  show ?case
  proof (cases k)
    case None
    then show ?thesis using Cons by (simp add: candidatePrefs_def)
  next
    case (Some gi)
    then show ?thesis using Cons by (simp add: candidatePrefs_def)
  qed
qed

lemma arrangeKids_length [simp]: "length (arrangeKids d v k pos kids) = length kids"
proof (induction kids arbitrary: k pos)
  case Nil
  then show ?case by simp
next
  case (Cons c kids)
  then show ?case by (cases c) (simp_all add: Let_def)
qed

lemma arrangeKids_nth:
  "i < length kids \<Longrightarrow> kids ! i = Some gi \<Longrightarrow>
   \<exists>gi'. arrangeKids d v k pos kids ! i = Some gi'
        \<and> Dim (AllocSize (LayData gi')) d = allocSize d v (Size (LayData gi))
        \<and> Size (LayData gi') = Size (LayData gi)"
proof (induction kids arbitrary: i k pos)
  case Nil
  then show ?case by simp
next
  case (Cons c kids)
  show ?case
  proof (cases i)
    case 0
    with Cons.prems show ?thesis by (cases d) (simp_all add: Let_def)
  next
    case (Suc j)
    with Cons.prems have j: "j < length kids" "kids ! j = Some gi" by simp_all
    show ?thesis
    proof (cases c)
      case None
      with Suc Cons.IH [OF j] show ?thesis by simp
    next
      case (Some g0)
      with Suc Cons.IH [OF j] show ?thesis by (simp add: Let_def)
    qed
  qed
qed

lemma nth_in_nodes: "i < length kids \<Longrightarrow> kids ! i = Some gi \<Longrightarrow> gi \<in> set (nodes kids)"
proof (induction kids arbitrary: i)
  case Nil
  then show ?case by simp
next
  case (Cons c kids)
  then show ?case by (cases i; cases c) auto
qed

text \<open>The two modes of \<open>LayoutAll\<close>, with the variables that decide the sizes.\<close>

lemma LayoutAll_pref_mode:
  assumes k: "Kids ly \<noteq> []" and e: "0 < availSpace d ly - prefSpace d ly"
      and t: "candidatePrefs (\<lambda>sp. HasMaxStretch sp d) d (Kids ly) = []
              \<or> sum_list (candidatePrefs (\<lambda>sp. HasMaxStretch sp d) d (Kids ly)) \<noteq> 0"
  shows "\<exists>v pos. LayoutAll d ly = Inr (ly\<lparr>Kids := arrangeKids d v 0 pos (Kids ly)\<rparr>)
           \<and> usePref v \<and> extra v = availSpace d ly - prefSpace d ly
           \<and> stretchTot v = sum_list (candidatePrefs (\<lambda>sp. HasMaxStretch sp d) d (Kids ly))
           \<and> stretchMax v = (candidatePrefs (\<lambda>sp. HasMaxStretch sp d) d (Kids ly) \<noteq> [])
           \<and> \<not> stretchNeed v"
proof -
  have u: "\<not> (availSpace d ly - prefSpace d ly < - (1 / 10))" using e by linarith
  show ?thesis
    using k e u t unfolding LayoutAll_def Let_def availSpace_def prefSpace_def
    by (simp add: stretchTotal_eq max_def) auto
qed

lemma LayoutAll_need_mode:
  assumes k: "Kids ly \<noteq> []" and f: "availSpace d ly - prefSpace d ly < - (1 / 10)"
      and t: "0 < availSpace d ly - needSpace d ly \<longrightarrow>
              candidatePrefs (stretchesNeed d) d (Kids ly) = []
              \<or> sum_list (candidatePrefs (stretchesNeed d) d (Kids ly)) \<noteq> 0"
  shows "\<exists>v pos. LayoutAll d ly = Inr (ly\<lparr>Kids := arrangeKids d v 0 pos (Kids ly)\<rparr>)
           \<and> \<not> usePref v \<and> extra v = max (availSpace d ly - needSpace d ly) 0
           \<and> stretchTot v = (if 0 < availSpace d ly - needSpace d ly
                then sum_list (candidatePrefs (stretchesNeed d) d (Kids ly)) else 0)
           \<and> stretchNeed v = (0 < availSpace d ly - needSpace d ly
                \<and> candidatePrefs (stretchesNeed d) d (Kids ly) \<noteq> [])
           \<and> \<not> stretchMax v"
proof -
  have s: "(\<lambda>sp. HasMaxStretch sp d \<or> CanStretchNeed sp d) = stretchesNeed d"
    by (auto simp: stretchesNeed_def)
  show ?thesis
    using k f t unfolding LayoutAll_def Let_def availSpace_def prefSpace_def needSpace_def s
    by (simp add: stretchTotal_eq max_def) auto
qed


text \<open>
  C1. In \<open>LayoutAll\<close>, when there is space left over the preferred size
  (\<open>extra = avail - pref > 0\<close>, so that the preferred baseline is used), the stretch
  candidates are exactly the children with \<open>Max < 0\<close> on the dimension: each of them is
  allocated its preferred size plus \<open>extra * (own pref / sum of the candidates' prefs)\<close>,
  every other child exactly its preferred size. (The sum of the candidates' preferred
  sizes is taken not to be 0: there the source divides by zero.) The witness is the row
  of the claim: two children with \<open>Max.X = -1\<close> preferring 10 and 30, and 40 to spare,
  receive 10 and 30 more.
\<close>

theorem LayoutAll_stretch_pref:
  assumes "0 < availSpace d ly - prefSpace d ly"
      and "candidatePrefs (\<lambda>sp. HasMaxStretch sp d) d (Kids ly) = []
           \<or> sum_list (candidatePrefs (\<lambda>sp. HasMaxStretch sp d) d (Kids ly)) \<noteq> 0"
      and "i < length (Kids ly)" and "Kids ly ! i = Some gi"
  shows "\<exists>ly' gi'. LayoutAll d ly = Inr ly' \<and> length (Kids ly') = length (Kids ly)
           \<and> Kids ly' ! i = Some gi'
           \<and> Dim (AllocSize (LayData gi')) d =
               Dim (Pref (Size (LayData gi))) d
               + (if Dim (Max' (Size (LayData gi))) d < 0
                  then (availSpace d ly - prefSpace d ly)
                       * (Dim (Pref (Size (LayData gi))) d
                          / sum_list (candidatePrefs (\<lambda>sp. HasMaxStretch sp d) d (Kids ly)))
                  else 0)"
proof -
  have k: "Kids ly \<noteq> []" using assms(3) by auto
  from LayoutAll_pref_mode [OF k assms(1,2)] obtain v pos where
    l: "LayoutAll d ly = Inr (ly\<lparr>Kids := arrangeKids d v 0 pos (Kids ly)\<rparr>)"
    and v: "usePref v" "extra v = availSpace d ly - prefSpace d ly"
       "stretchTot v = sum_list (candidatePrefs (\<lambda>sp. HasMaxStretch sp d) d (Kids ly))"
       "stretchMax v = (candidatePrefs (\<lambda>sp. HasMaxStretch sp d) d (Kids ly) \<noteq> [])"
       "\<not> stretchNeed v"
    by blast
  from arrangeKids_nth [OF assms(3,4), of d v 0 pos] obtain gi' where
    g: "arrangeKids d v 0 pos (Kids ly) ! i = Some gi'"
       "Dim (AllocSize (LayData gi')) d = allocSize d v (Size (LayData gi))"
    by blast
  have m: "candidatePrefs (\<lambda>sp. HasMaxStretch sp d) d (Kids ly) \<noteq> []"
    if "Dim (Max' (Size (LayData gi))) d < 0"
  proof -
    have "gi \<in> set (nodes (Kids ly))" using nth_in_nodes [OF assms(3,4)] .
    with that have "gi \<in> set (filter (\<lambda>gi. HasMaxStretch (Size (LayData gi)) d) (nodes (Kids ly)))"
      by (simp add: HasMaxStretch_def)
    then show ?thesis unfolding candidatePrefs_def by (auto simp: filter_empty_conv)
  qed
  have "allocSize d v (Size (LayData gi)) =
          Dim (Pref (Size (LayData gi))) d
          + (if Dim (Max' (Size (LayData gi))) d < 0
             then (availSpace d ly - prefSpace d ly)
                  * (Dim (Pref (Size (LayData gi))) d
                     / sum_list (candidatePrefs (\<lambda>sp. HasMaxStretch sp d) d (Kids ly)))
             else 0)"
    using v m by (simp add: allocSize_def Let_def HasMaxStretch_def)
  with l g show ?thesis by simp
qed

theorem LayoutAll_stretch_pref_witness:
  "0 < availSpace DimX stretchRow - prefSpace DimX stretchRow
   \<and> availSpace DimX stretchRow - prefSpace DimX stretchRow = 40
   \<and> candidatePrefs (\<lambda>sp. HasMaxStretch sp DimX) DimX (Kids stretchRow) = [10, 30]
   \<and> (\<exists>ly' a b. LayoutAll DimX stretchRow = Inr ly'
         \<and> Kids ly' ! 0 = Some a \<and> Dim (AllocSize (LayData a)) DimX = 10 + 10
         \<and> Kids ly' ! 1 = Some b \<and> Dim (AllocSize (LayData b)) DimX = 30 + 30)"
proof -
  have e: "availSpace DimX stretchRow - prefSpace DimX stretchRow = 40"
    by (simp add: availSpace_def prefSpace_def stretchRow_def rowOf_def layout0_def
          prefs_def vec_def Style0_def)
  have c: "candidatePrefs (\<lambda>sp. HasMaxStretch sp DimX) DimX (Kids stretchRow) = [10, 30]"
    by (simp add: candidatePrefs_def stretchRow_def rowOf_def layout0_def node_def
          prefs_def vec_def HasMaxStretch_def)
  have k: "length (Kids stretchRow) = 2"
      "Kids stretchRow ! 0 = Some (node (prefs (vec 0 0) (vec 10 0) (vec (- 1) 0)))"
      "Kids stretchRow ! 1 = Some (node (prefs (vec 0 0) (vec 30 0) (vec (- 1) 0)))"
    by (simp_all add: stretchRow_def rowOf_def layout0_def)
  have p: "0 < availSpace DimX stretchRow - prefSpace DimX stretchRow" using e by simp
  have t: "candidatePrefs (\<lambda>sp. HasMaxStretch sp DimX) DimX (Kids stretchRow) = []
           \<or> sum_list (candidatePrefs (\<lambda>sp. HasMaxStretch sp DimX) DimX (Kids stretchRow)) \<noteq> 0"
    by (simp add: c)
  from LayoutAll_stretch_pref [OF p t _ k(2)] LayoutAll_stretch_pref [OF p t _ k(3)] k(1)
  show ?thesis
    by (auto simp: e c node_def prefs_def vec_def)
qed

text \<open>
  C2 (amended). In \<open>LayoutAll\<close>, if the container's own preferred size on the flow
  dimension, less twice the box spacing, exceeds the available space by more than 0.1
  (it is this value that the source tests, not the sum of the children's preferred
  sizes), the allocator falls back to the need baseline: a child that is no stretch
  candidate (\<open>Max \<ge> 0\<close> and \<open>Pref \<le> Need\<close>) is allocated exactly its \<open>Need\<close>, a
  candidate its \<open>Need\<close> plus \<open>extra * (own pref / sum of the candidates' prefs)\<close> when
  \<open>extra = avail - need > 0\<close>; and no child is allocated less than its \<open>Need\<close>,
  provided that the preferred sizes of the candidates are not negative (and that their
  sum is not 0 when there is extra space).
\<close>

theorem LayoutAll_need_fallback:
  assumes "availSpace d ly - prefSpace d ly < - (1 / 10)"
      and "\<forall>x \<in> set (candidatePrefs (stretchesNeed d) d (Kids ly)). 0 \<le> x"
      and "0 < availSpace d ly - needSpace d ly \<longrightarrow>
           candidatePrefs (stretchesNeed d) d (Kids ly) = []
           \<or> sum_list (candidatePrefs (stretchesNeed d) d (Kids ly)) \<noteq> 0"
      and "i < length (Kids ly)" and "Kids ly ! i = Some gi"
  shows "\<exists>ly' gi'. LayoutAll d ly = Inr ly' \<and> length (Kids ly') = length (Kids ly)
           \<and> Kids ly' ! i = Some gi'
           \<and> Dim (AllocSize (LayData gi')) d =
               Dim (Need (Size (LayData gi))) d
               + (if 0 < availSpace d ly - needSpace d ly \<and> stretchesNeed d (Size (LayData gi))
                  then (availSpace d ly - needSpace d ly)
                       * (Dim (Pref (Size (LayData gi))) d
                          / sum_list (candidatePrefs (stretchesNeed d) d (Kids ly)))
                  else 0)
           \<and> Dim (Need (Size (LayData gi))) d \<le> Dim (AllocSize (LayData gi')) d
           \<and> (\<not> stretchesNeed d (Size (LayData gi)) \<longrightarrow>
                Dim (AllocSize (LayData gi')) d = Dim (Need (Size (LayData gi))) d)"
proof -
  define cp where "cp = candidatePrefs (stretchesNeed d) d (Kids ly)"
  define ex where "ex = availSpace d ly - needSpace d ly"
  have k: "Kids ly \<noteq> []" using assms(4) by auto
  from LayoutAll_need_mode [OF k assms(1,3)] obtain v pos where
    l: "LayoutAll d ly = Inr (ly\<lparr>Kids := arrangeKids d v 0 pos (Kids ly)\<rparr>)"
    and v: "\<not> usePref v" "extra v = max ex 0"
       "stretchTot v = (if 0 < ex then sum_list cp else 0)"
       "stretchNeed v = (0 < ex \<and> cp \<noteq> [])" "\<not> stretchMax v"
    unfolding cp_def ex_def by blast
  from arrangeKids_nth [OF assms(4,5), of d v 0 pos] obtain gi' where
    g: "arrangeKids d v 0 pos (Kids ly) ! i = Some gi'"
       "Dim (AllocSize (LayData gi')) d = allocSize d v (Size (LayData gi))"
    by blast
  have mem: "Dim (Pref (Size (LayData gi))) d \<in> set cp" if "stretchesNeed d (Size (LayData gi))"
  proof -
    have "gi \<in> set (nodes (Kids ly))" using nth_in_nodes [OF assms(4,5)] .
    with that show ?thesis unfolding cp_def candidatePrefs_def by auto
  qed
  have a: "allocSize d v (Size (LayData gi)) =
          Dim (Need (Size (LayData gi))) d
          + (if 0 < ex \<and> stretchesNeed d (Size (LayData gi))
             then ex * (Dim (Pref (Size (LayData gi))) d / sum_list cp) else 0)"
    using v mem by (auto simp: allocSize_def Let_def stretchesNeed_def)
  have nn: "0 \<le> sum_list cp" using assms(2) unfolding cp_def by (simp add: sum_list_nonneg)
  have ge: "0 \<le> (if 0 < ex \<and> stretchesNeed d (Size (LayData gi))
             then ex * (Dim (Pref (Size (LayData gi))) d / sum_list cp) else 0)"
  proof (cases "0 < ex \<and> stretchesNeed d (Size (LayData gi))")
    case True
    then have "0 \<le> Dim (Pref (Size (LayData gi))) d" using mem assms(2) unfolding cp_def by blast
    with nn True show ?thesis by simp
  next
    case False
    then show ?thesis by auto
  qed
  from l g a ge show ?thesis unfolding cp_def ex_def by auto
qed

theorem LayoutAll_need_fallback_witness:
  "availSpace DimX narrowRow - prefSpace DimX narrowRow < - (1 / 10)
   \<and> candidatePrefs (stretchesNeed DimX) DimX (Kids narrowRow) = [50]
   \<and> availSpace DimX narrowRow - needSpace DimX narrowRow = 10
   \<and> (\<exists>ly' a b. LayoutAll DimX narrowRow = Inr ly'
         \<and> Kids ly' ! 0 = Some a \<and> Dim (AllocSize (LayData a)) DimX = 10 + 10
         \<and> Kids ly' ! 1 = Some b \<and> Dim (AllocSize (LayData b)) DimX = 20)"
proof -
  have e: "availSpace DimX narrowRow - needSpace DimX narrowRow = 10"
    and f: "availSpace DimX narrowRow - prefSpace DimX narrowRow < - (1 / 10)"
    by (simp_all add: availSpace_def prefSpace_def needSpace_def narrowRow_def rowOf_def
          layout0_def prefs_def vec_def Style0_def)
  have c: "candidatePrefs (stretchesNeed DimX) DimX (Kids narrowRow) = [50]"
    by (simp add: candidatePrefs_def narrowRow_def rowOf_def layout0_def node_def
          prefs_def vec_def stretchesNeed_def HasMaxStretch_def CanStretchNeed_def)
  have k: "length (Kids narrowRow) = 2"
      "Kids narrowRow ! 0 = Some (node (prefs (vec 10 0) (vec 50 0) (vec 100 0)))"
      "Kids narrowRow ! 1 = Some (node (prefs (vec 20 0) (vec 20 0) (vec 100 0)))"
    by (simp_all add: narrowRow_def rowOf_def layout0_def)
  have n: "\<forall>x \<in> set (candidatePrefs (stretchesNeed DimX) DimX (Kids narrowRow)). 0 \<le> x"
    by (simp add: c)
  have t: "0 < availSpace DimX narrowRow - needSpace DimX narrowRow \<longrightarrow>
           candidatePrefs (stretchesNeed DimX) DimX (Kids narrowRow) = []
           \<or> sum_list (candidatePrefs (stretchesNeed DimX) DimX (Kids narrowRow)) \<noteq> 0"
    by (simp add: c)
  from LayoutAll_need_fallback [OF f n t _ k(2)] LayoutAll_need_fallback [OF f n t _ k(3)] k(1)
  show ?thesis
    by (auto simp: e f c node_def prefs_def vec_def stretchesNeed_def HasMaxStretch_def
          CanStretchNeed_def)
qed

text \<open>Two rows in which the children's preferred sizes sum to more than the space
  available, by 40 and by 10, while the container's own preferred size fits: the
  allocator stays on the preferred baseline. In the first the children satisfy the size
  invariant and are given their preferred 50 each, 100 in a space of 60. In the second a
  child that needs 30, prefers 20 and is no stretch candidate is given 20.\<close>

theorem LayoutAll_no_fallback_counterexample:
  "sum_list (map (\<lambda>gi. X (Pref (Size (LayData gi)))) (nodes (Kids crowdedRow)))
     - availSpace DimX crowdedRow = 40
   \<and> SizeInvariant (Size (LayData (hd (nodes (Kids crowdedRow)))))
   \<and> \<not> (availSpace DimX crowdedRow - prefSpace DimX crowdedRow < - (1 / 10))
   \<and> widths (LayoutAll DimX crowdedRow) = Inr [Some 50, Some 50]
   \<and> sum_list (map (\<lambda>gi. X (Pref (Size (LayData gi)))) (nodes (Kids shyRow)))
     - availSpace DimX shyRow = 10
   \<and> map (\<lambda>gi. X (Need (Size (LayData gi)))) (nodes (Kids shyRow)) = [30, 10]
   \<and> \<not> stretchesNeed DimX (Size (LayData (hd (nodes (Kids shyRow)))))
   \<and> widths (LayoutAll DimX shyRow) = Inr [Some 20, Some 50]"
  by (simp add: crowdedRow_def shyRow_def rowOf_def layout0_def node_def prefs_def vec_def
        availSpace_def prefSpace_def widths_def LayoutAll_def allocSize_def Let_def
        SizeInvariant_def dimInvariant_def stretchesNeed_def HasMaxStretch_def
        CanStretchNeed_def Node0_def Style0_def LayoutStyle0_def LayoutData0_def
        Vec2DZero_def IsAlignEnd_def)

end
